theory Spec2Isabelle
  imports Complex_Main "HOL-Library.Product_Lexorder" "HOL-Library.Word"
begin

section \<open>JavaScript numbers\<close>

text \<open>
  A JavaScript number is an IEEE 754 double: a finite value, an infinity or
  \<^verbatim>\<open>NaN\<close> (the sign of zero is not kept: no comparison sees it). A finite number is
  written as the rational it denotes; \<open>isNumber\<close> says that the rational is a double.
\<close>

datatype js_number = Finite rat | PosInfinity | NegInfinity | NaN

text \<open>
  The binade of a positive rational, \<open>\<lfloor>log\<^sub>2 q\<rfloor>\<close>, by halving or doubling; beyond
  1100 steps the value is outside the range of the doubles on either side.
\<close>

function binadeUp :: "nat \<Rightarrow> rat \<Rightarrow> int" where
  "binadeUp fuel q = (if fuel = 0 \<or> q < 2 then 0 else binadeUp (fuel - 1) (q / 2) + 1)"
  by pat_completeness auto
termination
  by (relation "measure fst") auto

function binadeDown :: "nat \<Rightarrow> rat \<Rightarrow> int" where
  "binadeDown fuel q = (if fuel = 0 \<or> 1 \<le> q then 0 else binadeDown (fuel - 1) (q * 2) - 1)"
  by pat_completeness auto
termination
  by (relation "measure fst") auto

declare binadeUp.simps [simp del] binadeDown.simps [simp del]

definition binade :: "rat \<Rightarrow> int" where
  "binade q = (if 1 \<le> q then binadeUp 1100 q else binadeDown 1100 q)"

text \<open>Rounding to the nearest integer, a tie to the even one.\<close>

definition roundHalfEven :: "rat \<Rightarrow> int" where
  "roundHalfEven x =
     (let f = \<lfloor>x\<rfloor>; r = x - of_int f
      in if r < 1 / 2 then f else if 1 / 2 < r then f + 1 else if even f then f else f + 1)"

text \<open>
  The double nearest to a rational (round to nearest, ties to even): 53 significant
  bits, the least exponent -1022 (below it the spacing stays \<open>2\<^sup>-\<^sup>1\<^sup>0\<^sup>7\<^sup>4\<close>), and an infinity
  from \<open>2\<^sup>1\<^sup>0\<^sup>2\<^sup>4\<close> on. It is the value of a decimal literal and of \<^verbatim>\<open>parseFloat\<close> on a
  decimal text, and the rounding of every arithmetic result.
\<close>

definition roundToDouble :: "rat \<Rightarrow> js_number" where
  "roundToDouble q =
     (if q = 0 then Finite 0
      else
        (let m = \<bar>q\<bar>;
             e = max (binade m) (- 1022);
             ulp = 2 powi (e - 52);
             v = of_int (roundHalfEven (m / ulp)) * ulp
         in if 2 powi 1024 \<le> v then (if 0 < q then PosInfinity else NegInfinity)
            else Finite (if 0 < q then v else - v)))"

definition isNumber :: "js_number \<Rightarrow> bool" where
  "isNumber x = (case x of Finite a \<Rightarrow> roundToDouble a = Finite a | _ \<Rightarrow> True)"

text \<open>The operators \<^verbatim>\<open>-\<close> and \<^verbatim>\<open>>\<close> and \<^verbatim>\<open>Math.abs\<close> on numbers.\<close>

fun jsSub :: "js_number \<Rightarrow> js_number \<Rightarrow> js_number" where
  "jsSub NaN y = NaN"
| "jsSub x NaN = NaN"
| "jsSub (Finite a) (Finite b) = roundToDouble (a - b)"
| "jsSub PosInfinity PosInfinity = NaN"
| "jsSub NegInfinity NegInfinity = NaN"
| "jsSub PosInfinity y = PosInfinity"
| "jsSub NegInfinity y = NegInfinity"
| "jsSub (Finite a) PosInfinity = NegInfinity"
| "jsSub (Finite a) NegInfinity = PosInfinity"

fun jsAbs :: "js_number \<Rightarrow> js_number" where
  "jsAbs (Finite a) = Finite \<bar>a\<bar>"
| "jsAbs NaN = NaN"
| "jsAbs x = PosInfinity"

fun jsGreater :: "js_number \<Rightarrow> js_number \<Rightarrow> bool" where
  "jsGreater NaN y = False"
| "jsGreater x NaN = False"
| "jsGreater (Finite a) (Finite b) = (b < a)"
| "jsGreater PosInfinity PosInfinity = False"
| "jsGreater PosInfinity y = True"
| "jsGreater NegInfinity y = False"
| "jsGreater (Finite a) PosInfinity = False"
| "jsGreater (Finite a) NegInfinity = True"

text \<open>
  The amount test of \<^verbatim>\<open>handlePaymentCallback\<close>:
  \<^verbatim>\<open>Math.abs(parseFloat(order.totalAmount) - amount) > 0.01\<close>
\<close>

definition amountMismatch :: "rat \<Rightarrow> js_number \<Rightarrow> bool" where
  "amountMismatch orderTotal amount =
     jsGreater (jsAbs (jsSub (roundToDouble orderTotal) amount)) (roundToDouble (1 / 100))"

section \<open>Data model\<close>

text \<open>
  The tables the order service works on (\<^verbatim>\<open>order.service.js\<close>, the admin
  license-key routes in \<^verbatim>\<open>routes/admin/dashboard.js\<close>). A row is a record, a
  table is the list of its rows in the order in which the store returns them when a
  query does not order them; that order need not be the order of the ids. Status
  columns hold the strings of the source's enumerations. A text column is the list of
  the bytes of its UTF-8 encoding. A \<^verbatim>\<open>Decimal\<close> column is the exact decimal
  value; the amount of a payment notification is a JavaScript number. Times are
  seconds.
\<close>

type_synonym time = nat

datatype order_status = Pending | Paid | Completed | Cancelled | Refunded

datatype key_status = Available | Sold | Revoked

record order_item =
  oi_productId :: nat
  oi_productName :: string
  oi_quantity :: nat

record license_key =
  k_id :: nat
  k_productId :: nat
  keyValueEncrypted :: string
  k_status :: key_status
  k_orderId :: "nat option"
  k_createdAt :: time
  k_soldAt :: "time option"
  k_revokedAt :: "time option"
  k_revokeReason :: "string option"

record order =
  o_id :: nat
  orderNo :: string
  o_email :: string
  totalAmount :: rat
  o_status :: order_status
  paymentMethod :: string
  transactionId :: "string option"
  paidAt :: "time option"
  orderItems :: "order_item list"

record product =
  p_id :: nat
  p_name :: string
  p_active :: bool

record db =
  orders :: "order list"
  licenseKeys :: "license_key list"
  products :: "product list"
  nextKeyId :: nat

text \<open>
  The errors the services throw: \<^verbatim>\<open>NotFoundError\<close>, \<^verbatim>\<open>BadRequestError\<close> with
  its message, and \<^verbatim>\<open>AppError('Refund failed', 500)\<close>; \<open>GatewayThrew\<close> is an
  exception of \<^verbatim>\<open>paymentService.refund\<close> passing through \<^verbatim>\<open>refundOrder\<close>.
\<close>

datatype bad_request =
    PaymentAmountMismatch
  | InsufficientLicenseKeys string nat nat
  | CannotCancel order_status
  | CannotRefund order_status
  | RefundExceedsTotal

datatype error =
    NotFoundError
  | BadRequestError bad_request
  | AppError
  | GatewayThrew

text \<open>
  What leaves the process or ends a transaction: the order-confirmation email that was
  handed to the mail service (recipient and the delivered keys as id, product, decrypted
  key), the log line of a failed email step, the refund asked of the payment gateway
  (order number and amount), and the end of a \<^verbatim>\<open>prisma.$transaction\<close>.
\<close>

datatype effect =
    OrderConfirmationEmail string "(nat \<times> nat \<times> string) list"
  | EmailFailureLogged
  | RefundRequested string rat
  | Commit
  | Rollback

datatype gateway_result = RefundSuccess | RefundRejected | RefundThrows

text \<open>
  The collaborators of one request: the clock, the Key Vault's \<^verbatim>\<open>decrypt\<close> (\<open>None\<close>
  when it throws), whether \<^verbatim>\<open>emailService.sendOrderConfirmation\<close> resolves, and what
  \<^verbatim>\<open>paymentService.refund\<close> answers.
\<close>

record env =
  now :: time
  decryptKey :: "string \<Rightarrow> string option"
  emailResolves :: bool
  gatewayRefund :: gateway_result

record callback_params =
  cb_orderNo :: string
  cb_transactionId :: string
  cb_paymentMethod :: string
  cb_status :: string
  cb_amount :: js_number

record callback_result =
  success :: bool
  message :: string
  res_orderNo :: "string option"

section \<open>The store\<close>

text \<open>\<^verbatim>\<open>tx.order.findUnique({ where: { orderNo } })\<close>\<close>

definition findOrder :: "db \<Rightarrow> string \<Rightarrow> order option" where
  "findOrder d n = find (\<lambda>r. orderNo r = n) (orders d)"

text \<open>\<^verbatim>\<open>tx.order.update({ where: { id }, data })\<close>\<close>

definition updateOrder :: "db \<Rightarrow> nat \<Rightarrow> (order \<Rightarrow> order) \<Rightarrow> db" where
  "updateOrder d oid f = d\<lparr>orders := map (\<lambda>r. if o_id r = oid then f r else r) (orders d)\<rparr>"

text \<open>
  \<^verbatim>\<open>prisma.$transaction(async (tx) => ...)\<close>: the writes of a body that throws are
  discarded; what the body sent out meanwhile is not taken back.
\<close>

definition transaction ::
  "(db \<Rightarrow> (error + 'a) \<times> db \<times> effect list) \<Rightarrow> db \<Rightarrow> (error + 'a) \<times> db \<times> effect list" where
  "transaction body d =
     (case body d of
        (Inl e, d', effs) \<Rightarrow> (Inl e, d, effs @ [Rollback])
      | (Inr r, d', effs) \<Rightarrow> (Inr r, d', effs @ [Commit]))"

section \<open>Key allocation\<close>

text \<open>
  \<^verbatim>\<open>tx.licenseKey.findMany({ where: { productId, status: 'available' }, take: quantity,
  orderBy: { createdAt: 'asc' } })\<close>. The query orders by \<^verbatim>\<open>createdAt\<close> alone; rows of
  equal creation time come in the order of the table.
\<close>

definition findAvailableKeys :: "db \<Rightarrow> nat \<Rightarrow> nat \<Rightarrow> license_key list" where
  "findAvailableKeys d pid quantity =
     take quantity (sort_key k_createdAt
       (filter (\<lambda>k. k_productId k = pid \<and> k_status k = Available) (licenseKeys d)))"

text \<open>
  \<^verbatim>\<open>tx.licenseKey.updateMany({ where: { id: { in: keyIds } }, data: { status: 'sold',
  orderId: order.id, soldAt: new Date() } })\<close>
\<close>

definition markSold :: "db \<Rightarrow> nat list \<Rightarrow> nat \<Rightarrow> time \<Rightarrow> db" where
  "markSold d keyIds oid t =
     d\<lparr>licenseKeys :=
         map (\<lambda>k. if k_id k \<in> set keyIds
                   then k\<lparr>k_status := Sold, k_orderId := Some oid, k_soldAt := Some t\<rparr>
                   else k)
             (licenseKeys d)\<rparr>"

text \<open>
  The body of the loop of \<^verbatim>\<open>_completeOrder\<close> after its \<^verbatim>\<open>findMany\<close>: the check of the
  number of rows found, and the write.
\<close>

definition claimSelected ::
  "time \<Rightarrow> nat \<Rightarrow> order_item \<Rightarrow> license_key list \<Rightarrow> db \<Rightarrow> error + db" where
  "claimSelected t oid item availableKeys d =
     (if length availableKeys < oi_quantity item
      then Inl (BadRequestError
             (InsufficientLicenseKeys (oi_productName item) (oi_quantity item) (length availableKeys)))
      else Inr (markSold d (map k_id availableKeys) oid t))"

text \<open>
  The loop over \<^verbatim>\<open>order.orderItems\<close> in \<^verbatim>\<open>_completeOrder\<close>. When an item throws,
  the rows written for the items before it are in the transaction's database.
\<close>

fun allocateItems :: "time \<Rightarrow> nat \<Rightarrow> order_item list \<Rightarrow> db \<Rightarrow> (error \<times> db) + db" where
  "allocateItems t oid [] d = Inr d"
| "allocateItems t oid (item # items) d =
     (case claimSelected t oid item
             (findAvailableKeys d (oi_productId item) (oi_quantity item)) d of
        Inl err \<Rightarrow> Inl (err, d)
      | Inr d' \<Rightarrow> allocateItems t oid items d')"

text \<open>
  Modelled from the spec: the relation \<^verbatim>\<open>OrderItem.licenseKeys\<close> is declared in the
  Prisma schema, which is not among the sources. The spec links a key to an order by
  the key's \<^verbatim>\<open>order_id\<close> (section 3, and the back-reference note of section 9); an
  item's keys are the keys of its order and its product.
\<close>

definition itemLicenseKeys :: "db \<Rightarrow> nat \<Rightarrow> order_item \<Rightarrow> license_key list" where
  "itemLicenseKeys d oid item =
     filter (\<lambda>k. k_orderId k = Some oid \<and> k_productId k = oi_productId item) (licenseKeys d)"

definition orderLicenseKeys :: "db \<Rightarrow> order \<Rightarrow> license_key list" where
  "orderLicenseKeys d ord = concat (map (itemLicenseKeys d (o_id ord)) (orderItems ord))"

text \<open>
  Step 3 of \<^verbatim>\<open>_completeOrder\<close>, the \<^verbatim>\<open>try\<close> block: decrypt every key of the updated
  order, then send the confirmation. An exception of \<^verbatim>\<open>decrypt\<close> or of the mail
  service is caught and logged.
\<close>

fun decryptAll :: "(string \<Rightarrow> string option) \<Rightarrow> license_key list \<Rightarrow> (nat \<times> nat \<times> string) list option" where
  "decryptAll dec [] = Some []"
| "decryptAll dec (k # ks) =
     (case dec (keyValueEncrypted k) of
        None \<Rightarrow> None
      | Some plain \<Rightarrow>
          (case decryptAll dec ks of
             None \<Rightarrow> None
           | Some rest \<Rightarrow> Some ((k_id k, k_productId k, plain) # rest)))"

definition sendConfirmation :: "env \<Rightarrow> db \<Rightarrow> order \<Rightarrow> effect list" where
  "sendConfirmation e d ord =
     (case decryptAll (decryptKey e) (orderLicenseKeys d ord) of
        None \<Rightarrow> [EmailFailureLogged]
      | Some ks \<Rightarrow>
          if emailResolves e then [OrderConfirmationEmail (o_email ord) ks]
          else [EmailFailureLogged])"

text \<open>\<^verbatim>\<open>_completeOrder(tx, order, transactionId)\<close>\<close>

definition completeOrder ::
  "env \<Rightarrow> order \<Rightarrow> string \<Rightarrow> db \<Rightarrow> (error + unit) \<times> db \<times> effect list" where
  "completeOrder e ord txid d =
     (case allocateItems (now e) (o_id ord) (orderItems ord) d of
        Inl (err, written) \<Rightarrow> (Inl err, written, [])
      | Inr d1 \<Rightarrow>
          (let d2 = updateOrder d1 (o_id ord)
                      (\<lambda>r. r\<lparr>o_status := Completed, transactionId := Some txid,
                                paidAt := Some (now e)\<rparr>)
           in (Inr (), d2, sendConfirmation e d2 ord)))"

section \<open>Payment callback\<close>

text \<open>\<^verbatim>\<open>handlePaymentCallback({ orderNo, transactionId, paymentMethod, status, amount })\<close>\<close>

definition callbackBody ::
  "env \<Rightarrow> callback_params \<Rightarrow> db \<Rightarrow> (error + callback_result) \<times> db \<times> effect list" where
  "callbackBody e p d =
     (case findOrder d (cb_orderNo p) of
        None \<Rightarrow> (Inl NotFoundError, d, [])
      | Some ord \<Rightarrow>
          if o_status ord \<noteq> Pending
          then (Inr \<lparr>success = True, message = ''Order already processed'', res_orderNo = None\<rparr>, d, [])
          else if amountMismatch (totalAmount ord) (cb_amount p)
          then (Inl (BadRequestError PaymentAmountMismatch), d, [])
          else if cb_status p = ''success''
          then (case completeOrder e ord (cb_transactionId p) d of
                  (Inl err, d', effs) \<Rightarrow> (Inl err, d', effs)
                | (Inr u, d', effs) \<Rightarrow>
                    (Inr \<lparr>success = True, message = ''Order completed'',
                          res_orderNo = Some (cb_orderNo p)\<rparr>, d', effs))
          else (Inr \<lparr>success = False, message = ''Payment failed'',
                     res_orderNo = Some (cb_orderNo p)\<rparr>,
                updateOrder d (o_id ord)
                  (\<lambda>r. r\<lparr>transactionId := Some (cb_transactionId p), paidAt := Some (now e),
                            o_status := Cancelled\<rparr>),
                []))"

definition handlePaymentCallback ::
  "env \<Rightarrow> callback_params \<Rightarrow> db \<Rightarrow> (error + callback_result) \<times> db \<times> effect list" where
  "handlePaymentCallback e p d = transaction (callbackBody e p) d"

section \<open>Cancellation and refund\<close>

text \<open>\<^verbatim>\<open>cancelOrder(orderNo)\<close>\<close>

definition cancelOrder :: "string \<Rightarrow> db \<Rightarrow> (error + order) \<times> db \<times> effect list" where
  "cancelOrder n d =
     transaction (\<lambda>d.
       case findOrder d n of
         None \<Rightarrow> (Inl NotFoundError, d, [])
       | Some ord \<Rightarrow>
           if o_status ord \<noteq> Pending
           then (Inl (BadRequestError (CannotCancel (o_status ord))), d, [])
           else (Inr (ord\<lparr>o_status := Cancelled\<rparr>),
                 updateOrder d (o_id ord) (\<lambda>r. r\<lparr>o_status := Cancelled\<rparr>), [])) d"

text \<open>
  \<^verbatim>\<open>tx.licenseKey.updateMany({ where: { id: { in: licenseKeyIds } }, data: { status:
  'available', orderId: null, soldAt: null } })\<close>
\<close>

definition releaseKeys :: "db \<Rightarrow> nat list \<Rightarrow> db" where
  "releaseKeys d licenseKeyIds =
     d\<lparr>licenseKeys :=
         map (\<lambda>k. if k_id k \<in> set licenseKeyIds
                   then k\<lparr>k_status := Available, k_orderId := None, k_soldAt := None\<rparr>
                   else k)
             (licenseKeys d)\<rparr>"

record refund_result =
  rf_success :: bool
  rf_order :: order
  rf_refundAmount :: rat

text \<open>
  \<^verbatim>\<open>refundOrder(orderNo, refundAmount, refundReason)\<close>; \<open>None\<close> is an omitted
  \<^verbatim>\<open>refundAmount\<close>, and \<^verbatim>\<open>refundAmount || totalAmount\<close> also replaces a zero.
\<close>

definition refundBody ::
  "env \<Rightarrow> string \<Rightarrow> rat option \<Rightarrow> db \<Rightarrow> (error + refund_result) \<times> db \<times> effect list" where
  "refundBody e n refundAmount d =
     (case findOrder d n of
        None \<Rightarrow> (Inl NotFoundError, d, [])
      | Some ord \<Rightarrow>
          if o_status ord \<noteq> Completed \<and> o_status ord \<noteq> Paid
          then (Inl (BadRequestError (CannotRefund (o_status ord))), d, [])
          else
            (let total = totalAmount ord;
                 actualRefundAmount =
                   (case refundAmount of None \<Rightarrow> total | Some a \<Rightarrow> if a = 0 then total else a)
             in if actualRefundAmount > total
                then (Inl (BadRequestError RefundExceedsTotal), d, [])
                else
                  (case gatewayRefund e of
                     RefundThrows \<Rightarrow> (Inl GatewayThrew, d, [RefundRequested n actualRefundAmount])
                   | RefundRejected \<Rightarrow> (Inl AppError, d, [RefundRequested n actualRefundAmount])
                   | RefundSuccess \<Rightarrow>
                       (let licenseKeyIds = map k_id (orderLicenseKeys d ord);
                            d1 = (if length licenseKeyIds > 0 then releaseKeys d licenseKeyIds else d);
                            d2 = updateOrder d1 (o_id ord) (\<lambda>r. r\<lparr>o_status := Refunded\<rparr>)
                        in (Inr \<lparr>rf_success = True, rf_order = ord\<lparr>o_status := Refunded\<rparr>,
                                  rf_refundAmount = actualRefundAmount\<rparr>,
                            d2, [RefundRequested n actualRefundAmount])))))"

definition refundOrder ::
  "env \<Rightarrow> string \<Rightarrow> rat option \<Rightarrow> db \<Rightarrow> (error + refund_result) \<times> db \<times> effect list" where
  "refundOrder e n refundAmount d = transaction (refundBody e n refundAmount) d"

section \<open>Admin license-key routes\<close>

datatype import_reply =
    ProductNotFound
  | NoValidKeys
  | AllKeysExist nat
  | Imported nat nat nat

datatype revoke_reply = KeyNotFound | AlreadyRevoked | RevokedOk

text \<open>
  The white space and line terminators of ECMAScript, each as its UTF-8 bytes: U+0009
  to U+000D, U+0020, U+00A0, U+1680, U+2000 to U+200A, U+2028, U+2029, U+202F, U+205F,
  U+3000 and U+FEFF.
\<close>

definition whiteSpace :: "string list" where
  "whiteSpace =
     [[CHR 0x09], [CHR 0x0A], [CHR 0x0B], [CHR 0x0C], [CHR 0x0D], [CHR 0x20],
      [CHR 0xC2, CHR 0xA0], [CHR 0xE1, CHR 0x9A, CHR 0x80],
      [CHR 0xE2, CHR 0x80, CHR 0x80], [CHR 0xE2, CHR 0x80, CHR 0x81],
      [CHR 0xE2, CHR 0x80, CHR 0x82], [CHR 0xE2, CHR 0x80, CHR 0x83],
      [CHR 0xE2, CHR 0x80, CHR 0x84], [CHR 0xE2, CHR 0x80, CHR 0x85],
      [CHR 0xE2, CHR 0x80, CHR 0x86], [CHR 0xE2, CHR 0x80, CHR 0x87],
      [CHR 0xE2, CHR 0x80, CHR 0x88], [CHR 0xE2, CHR 0x80, CHR 0x89],
      [CHR 0xE2, CHR 0x80, CHR 0x8A], [CHR 0xE2, CHR 0x80, CHR 0xA8],
      [CHR 0xE2, CHR 0x80, CHR 0xA9], [CHR 0xE2, CHR 0x80, CHR 0xAF],
      [CHR 0xE2, CHR 0x81, CHR 0x9F], [CHR 0xE3, CHR 0x80, CHR 0x80],
      [CHR 0xEF, CHR 0xBB, CHR 0xBF]]"

text \<open>The text without every leading occurrence of one of the given byte sequences.\<close>

function stripLeading :: "string list \<Rightarrow> string \<Rightarrow> string" where
  "stripLeading ws s =
     (case find (\<lambda>w. w \<noteq> [] \<and> take (length w) s = w) ws of
        None \<Rightarrow> s
      | Some w \<Rightarrow> stripLeading ws (drop (length w) s))"
  by pat_completeness auto
termination
proof (relation "measure (\<lambda>(ws, s). length s)")
  show "wf (measure (\<lambda>(ws, s). length s))" by simp
next
  fix ws :: "string list" and s w :: string
  assume "find (\<lambda>w. w \<noteq> [] \<and> take (length w) s = w) ws = Some w"
  then have w: "w \<noteq> []" "take (length w) s = w" by (auto simp: find_Some_iff)
  from w(2) have "length (take (length w) s) = length w" by (rule arg_cong)
  then have "length w \<le> length s" by simp
  with w(1) show "((ws, drop (length w) s), (ws, s)) \<in> measure (\<lambda>(ws, s). length s)"
    by (cases w) auto
qed

declare stripLeading.simps [simp del]

text \<open>\<^verbatim>\<open>String.prototype.trim\<close>\<close>

definition trim :: "string \<Rightarrow> string" where
  "trim s = rev (stripLeading (map rev whiteSpace) (rev (stripLeading whiteSpace s)))"

text \<open>\<^verbatim>\<open>[...new Set(xs)]\<close>: the first occurrence of each element, in order.\<close>

definition uniqueInOrder :: "'a list \<Rightarrow> 'a list" where
  "uniqueInOrder xs = rev (remdups (rev xs))"

text \<open>
  \<^verbatim>\<open>prisma.licenseKey.createMany\<close> for the rows of the import: fresh ids from the
  table's sequence, the column defaults for the rest.
\<close>

fun newKeyRows :: "time \<Rightarrow> nat \<Rightarrow> nat \<Rightarrow> string list \<Rightarrow> license_key list" where
  "newKeyRows t productId i [] = []"
| "newKeyRows t productId i (keyValue # rest) =
     \<lparr>k_id = i, k_productId = productId, keyValueEncrypted = keyValue, k_status = Available,
      k_orderId = None, k_createdAt = t, k_soldAt = None, k_revokedAt = None,
      k_revokeReason = None\<rparr> # newKeyRows t productId (Suc i) rest"

text \<open>The handler of \<^verbatim>\<open>POST /bulk-import\<close>.\<close>

definition bulkImport :: "time \<Rightarrow> nat \<Rightarrow> string list \<Rightarrow> db \<Rightarrow> import_reply \<times> db" where
  "bulkImport t productId keys d =
     (case find (\<lambda>p. p_id p = productId) (products d) of
        None \<Rightarrow> (ProductNotFound, d)
      | Some foundProduct \<Rightarrow>
          (let uniqueKeys = filter (\<lambda>k. length k > 0) (uniqueInOrder (map trim keys)) in
           if length uniqueKeys = 0 then (NoValidKeys, d)
           else
             (let existingKeyValues =
                    map keyValueEncrypted
                      (filter (\<lambda>k. k_productId k = productId \<and> keyValueEncrypted k \<in> set uniqueKeys)
                         (licenseKeys d));
                  newKeys = filter (\<lambda>k. k \<notin> set existingKeyValues) uniqueKeys
              in if length newKeys = 0 then (AllKeysExist (length existingKeyValues), d)
                 else (Imported (length newKeys) (length existingKeyValues) (length uniqueKeys),
                       d\<lparr>licenseKeys := licenseKeys d @ newKeyRows t productId (nextKeyId d) newKeys,
                         nextKeyId := nextKeyId d + length newKeys\<rparr>))))"

text \<open>The handler of \<^verbatim>\<open>PATCH /:id/revoke\<close>; \<^verbatim>\<open>reason || null\<close> drops an empty reason.\<close>

definition revokeKey :: "time \<Rightarrow> nat \<Rightarrow> string option \<Rightarrow> db \<Rightarrow> revoke_reply \<times> db" where
  "revokeKey t kid reason d =
     (case find (\<lambda>k. k_id k = kid) (licenseKeys d) of
        None \<Rightarrow> (KeyNotFound, d)
      | Some key \<Rightarrow>
          if k_status key = Revoked then (AlreadyRevoked, d)
          else (RevokedOk,
                d\<lparr>licenseKeys :=
                    map (\<lambda>k. if k_id k = kid
                              then k\<lparr>k_status := Revoked, k_revokedAt := Some t,
                                     k_revokeReason := (if reason = Some [] then None else reason)\<rparr>
                              else k)
                        (licenseKeys d)\<rparr>))"

text \<open>The handler of \<^verbatim>\<open>POST /bulk-revoke\<close>: the count of the rows it revoked.\<close>

definition bulkRevoke :: "time \<Rightarrow> nat list \<Rightarrow> string option \<Rightarrow> db \<Rightarrow> nat \<times> db" where
  "bulkRevoke t ids reason d =
     (length (filter (\<lambda>k. k_id k \<in> set ids \<and> k_status k \<noteq> Revoked) (licenseKeys d)),
      d\<lparr>licenseKeys :=
          map (\<lambda>k. if k_id k \<in> set ids \<and> k_status k \<noteq> Revoked
                    then k\<lparr>k_status := Revoked, k_revokedAt := Some t,
                           k_revokeReason := (if reason = Some [] then None else reason)\<rparr>
                    else k)
              (licenseKeys d)\<rparr>)"

section \<open>Key Vault\<close>

text \<open>
  \<^verbatim>\<open>utils/encryption.js\<close>. A JavaScript string is the list of its UTF-16 code units,
  a \<^verbatim>\<open>Buffer\<close> the list of its bytes. The functions of Node's \<^verbatim>\<open>crypto\<close> and
  \<^verbatim>\<open>Buffer\<close> that the module calls are a parameter: \<^verbatim>\<open>scryptSync(key, 'salt',
  KEY_LENGTH)\<close>; the AES-256-GCM cipher from key, initialisation vector and plaintext
  bytes to ciphertext and authentication tag (\<^verbatim>\<open>createCipheriv\<close>, \<^verbatim>\<open>update\<close>,
  \<^verbatim>\<open>final\<close>, \<^verbatim>\<open>getAuthTag\<close>); the decipher from key, vector, ciphertext and tag to
  the plaintext bytes (\<^verbatim>\<open>createDecipheriv\<close>, \<^verbatim>\<open>setAuthTag\<close>, \<^verbatim>\<open>update\<close>,
  \<^verbatim>\<open>final\<close>); the Base64 encoder and decoder; and the UTF-8 conversions, from the
  string that \<^verbatim>\<open>cipher.update(text, 'utf8', ...)\<close> is given to the bytes it encrypts,
  and from the bytes the decipher produces to the string that its \<^verbatim>\<open>'utf8'\<close> output
  is. \<open>None\<close> is an exception.
\<close>

type_synonym js_string = "16 word list"

record crypto_lib =
  scryptSync :: "js_string \<Rightarrow> string"
  gcmEncrypt :: "string \<Rightarrow> string \<Rightarrow> string \<Rightarrow> (string \<times> string) option"
  gcmDecrypt :: "string \<Rightarrow> string \<Rightarrow> string \<Rightarrow> string \<Rightarrow> string option"
  base64Encode :: "string \<Rightarrow> js_string"
  base64Decode :: "js_string \<Rightarrow> string"
  utf8Encode :: "js_string \<Rightarrow> string"
  utf8Decode :: "string \<Rightarrow> js_string"

datatype crypto_error = EncryptionFailed | DecryptionFailed

definition IV_LENGTH :: nat where
  "IV_LENGTH = 16"

definition TAG_LENGTH :: nat where
  "TAG_LENGTH = 16"

definition KEY_LENGTH :: nat where
  "KEY_LENGTH = 32"

text \<open>
  \<^verbatim>\<open>String.prototype.toWellFormed\<close>: the string with every surrogate code unit that
  is not part of a pair (a high surrogate followed by a low one) replaced by U+FFFD.
\<close>

definition isHighSurrogate :: "16 word \<Rightarrow> bool" where
  "isHighSurrogate u \<longleftrightarrow> 0xD800 \<le> u \<and> u \<le> 0xDBFF"

definition isLowSurrogate :: "16 word \<Rightarrow> bool" where
  "isLowSurrogate u \<longleftrightarrow> 0xDC00 \<le> u \<and> u \<le> 0xDFFF"

fun toWellFormed :: "js_string \<Rightarrow> js_string" where
  "toWellFormed [] = []"
| "toWellFormed [u] = (if isHighSurrogate u \<or> isLowSurrogate u then [0xFFFD] else [u])"
| "toWellFormed (u # v # rest) =
     (if isHighSurrogate u \<and> isLowSurrogate v then u # v # toWellFormed rest
      else if isHighSurrogate u \<or> isLowSurrogate u then 0xFFFD # toWellFormed (v # rest)
      else u # toWellFormed (v # rest))"

text \<open>\<^verbatim>\<open>String.prototype.isWellFormed\<close>: no unpaired surrogate.\<close>

definition isWellFormed :: "js_string \<Rightarrow> bool" where
  "isWellFormed s \<longleftrightarrow> toWellFormed s = s"

definition isHexDigit :: "16 word \<Rightarrow> bool" where
  "isHexDigit c \<longleftrightarrow>
     (0x30 \<le> c \<and> c \<le> 0x39) \<or> (0x61 \<le> c \<and> c \<le> 0x66) \<or> (0x41 \<le> c \<and> c \<le> 0x46)"

text \<open>
  What the module relies on: with a key of 32 bytes and a vector of 16 bytes the cipher
  returns a tag of 16 bytes, and the decipher gives the plaintext bytes back from the
  cipher's output; Base64 decoding undoes the encoding; \<^verbatim>\<open>scryptSync\<close> derives
  \<^verbatim>\<open>KEY_LENGTH\<close> bytes; the UTF-8 encoder writes an unpaired surrogate as U+FFFD, and
  decoding what it wrote gives the well-formed string back.
\<close>

definition crypto_contract :: "crypto_lib \<Rightarrow> bool" where
  "crypto_contract L \<longleftrightarrow>
     (\<forall>key iv text. length key = KEY_LENGTH \<and> length iv = IV_LENGTH \<longrightarrow>
        (\<exists>enc tag. gcmEncrypt L key iv text = Some (enc, tag) \<and> length tag = TAG_LENGTH \<and>
                    gcmDecrypt L key iv enc tag = Some text)) \<and>
     (\<forall>buf. base64Decode L (base64Encode L buf) = buf) \<and>
     (\<forall>pw. length (scryptSync L pw) = KEY_LENGTH) \<and>
     (\<forall>s. utf8Decode L (utf8Encode L s) = toWellFormed s)"

definition hexval :: "16 word \<Rightarrow> nat option" where
  "hexval c =
     (let n = unat c in
      if 48 \<le> n \<and> n \<le> 57 then Some (n - 48)
      else if 97 \<le> n \<and> n \<le> 102 then Some (n - 87)
      else if 65 \<le> n \<and> n \<le> 70 then Some (n - 55)
      else None)"

text \<open>\<^verbatim>\<open>Buffer.from(key, 'hex')\<close>: the bytes up to the first pair that is not hexadecimal.\<close>

fun hexDecode :: "js_string \<Rightarrow> string" where
  "hexDecode (a # b # rest) =
     (case (hexval a, hexval b) of
        (Some x, Some y) \<Rightarrow> char_of (16 * x + y) # hexDecode rest
      | _ \<Rightarrow> [])"
| "hexDecode _ = []"

text \<open>
  \<^verbatim>\<open>getEncryptionKey()\<close>; the argument is \<^verbatim>\<open>process.env.ENCRYPTION_KEY\<close>, and
  \<^verbatim>\<open>!key\<close> holds of an unset and of an empty variable. \<^verbatim>\<open>key.length\<close> is the number
  of code units.
\<close>

definition getEncryptionKey :: "crypto_lib \<Rightarrow> js_string option \<Rightarrow> string option" where
  "getEncryptionKey L envKey =
     (case envKey of
        None \<Rightarrow> None
      | Some key \<Rightarrow>
          if key = [] then None
          else if length key = 64 then Some (hexDecode key)
          else Some (scryptSync L key))"

text \<open>
  \<^verbatim>\<open>encrypt(text)\<close>; \<open>iv\<close> is the value of \<^verbatim>\<open>crypto.randomBytes(IV_LENGTH)\<close> in this
  call.
\<close>

definition encrypt ::
  "crypto_lib \<Rightarrow> js_string option \<Rightarrow> string \<Rightarrow> js_string \<Rightarrow> crypto_error + js_string" where
  "encrypt L envKey iv text =
     (case getEncryptionKey L envKey of
        None \<Rightarrow> Inl EncryptionFailed
      | Some key \<Rightarrow>
          (case gcmEncrypt L key iv (utf8Encode L text) of
             None \<Rightarrow> Inl EncryptionFailed
           | Some (encrypted, authTag) \<Rightarrow> Inr (base64Encode L (iv @ encrypted @ authTag))))"

text \<open>
  \<^verbatim>\<open>buf.subarray(start, end)\<close>: a negative index counts from the end, and both indices
  are clamped to the buffer.
\<close>

definition subarray :: "'a list \<Rightarrow> int \<Rightarrow> int \<Rightarrow> 'a list" where
  "subarray buf start fin =
     (let len = int (length buf);
          s = (if start < 0 then max (len + start) 0 else min start len);
          e = (if fin < 0 then max (len + fin) 0 else min fin len)
      in if s < e then take (nat (e - s)) (drop (nat s) buf) else [])"

text \<open>\<^verbatim>\<open>decrypt(encryptedText)\<close>\<close>

definition decrypt ::
  "crypto_lib \<Rightarrow> js_string option \<Rightarrow> js_string \<Rightarrow> crypto_error + js_string" where
  "decrypt L envKey encryptedText =
     (case getEncryptionKey L envKey of
        None \<Rightarrow> Inl DecryptionFailed
      | Some key \<Rightarrow>
          (let buffer = base64Decode L encryptedText;
               iv = subarray buffer 0 (int IV_LENGTH);
               authTag = subarray buffer (int (length buffer) - int TAG_LENGTH) (int (length buffer));
               encrypted = subarray buffer (int IV_LENGTH) (int (length buffer) - int TAG_LENGTH)
           in case gcmDecrypt L key iv encrypted authTag of
                None \<Rightarrow> Inl DecryptionFailed
              | Some decrypted \<Rightarrow> Inr (utf8Decode L decrypted)))"

text \<open>\<^verbatim>\<open>decrypt(encrypt(text))\<close>\<close>

definition roundTrip ::
  "crypto_lib \<Rightarrow> js_string option \<Rightarrow> string \<Rightarrow> js_string \<Rightarrow> crypto_error + js_string" where
  "roundTrip L envKey iv text =
     (case encrypt L envKey iv text of
        Inl err \<Rightarrow> Inl err
      | Inr encryptedText \<Rightarrow> decrypt L envKey encryptedText)"

section \<open>Inventory alerting\<close>

text \<open>
  \<^verbatim>\<open>InventoryService\<close> (second module of \<^verbatim>\<open>notification.service.js\<close>).
  \<^verbatim>\<open>alertThreshold\<close> is the configured threshold of the service.
\<close>

record stock_item =
  si_productId :: nat
  si_productName :: string
  stockCount :: nat
  isLowStock :: bool

text \<open>\<^verbatim>\<open>checkAllStock()\<close>: the active products with their counts of available keys.\<close>

definition checkAllStock :: "nat \<Rightarrow> db \<Rightarrow> stock_item list" where
  "checkAllStock alertThreshold d =
     map (\<lambda>p. let c = length (filter (\<lambda>k. k_productId k = p_id p \<and> k_status k = Available)
                                  (licenseKeys d))
               in \<lparr>si_productId = p_id p, si_productName = p_name p, stockCount = c,
                    isLowStock = (c \<le> alertThreshold)\<rparr>)
         (filter p_active (products d))"

definition getLowStockProducts :: "nat \<Rightarrow> db \<Rightarrow> stock_item list" where
  "getLowStockProducts alertThreshold d = filter isLowStock (checkAllStock alertThreshold d)"

text \<open>
  The Redis keys \<^verbatim>\<open>inventory:alert:<productId>\<close>: a product with a flag maps to the
  time at which the flag expires.
\<close>

type_synonym redis = "nat \<Rightarrow> time option"

definition ALERT_COOLDOWN :: nat where
  "ALERT_COOLDOWN = 3600 * 24"

text \<open>\<^verbatim>\<open>_hasRecentAlert(productId)\<close> at time \<open>t\<close>: \<^verbatim>\<open>redis.exists(key) === 1\<close>\<close>

definition hasRecentAlert :: "redis \<Rightarrow> time \<Rightarrow> nat \<Rightarrow> bool" where
  "hasRecentAlert r t productId = (case r productId of None \<Rightarrow> False | Some expiry \<Rightarrow> t < expiry)"

text \<open>\<^verbatim>\<open>_markAlertSent(productId)\<close> at time \<open>t\<close>: \<^verbatim>\<open>redis.setex(key, ALERT_COOLDOWN, '1')\<close>\<close>

definition markAlertSent :: "redis \<Rightarrow> time \<Rightarrow> nat \<Rightarrow> redis" where
  "markAlertSent r t productId = r(productId \<mapsto> t + ALERT_COOLDOWN)"

text \<open>
  The two channels of \<^verbatim>\<open>sendStockAlert\<close>, each \<open>None\<close> when it is not configured
  (no admin address or mail service; no WeChat channel), else what its
  \<^verbatim>\<open>sendLowStockAlert\<close> does for a product: resolve with a \<^verbatim>\<open>success\<close> flag, or throw.
\<close>

datatype send_outcome = Resolved bool | Threw

record alert_env =
  a_now :: time
  emailChannel :: "(nat \<Rightarrow> send_outcome) option"
  wechatChannel :: "(nat \<Rightarrow> send_outcome) option"

definition channelResult :: "(nat \<Rightarrow> send_outcome) option \<Rightarrow> nat \<Rightarrow> bool option" where
  "channelResult channel productId =
     (case channel of
        None \<Rightarrow> None
      | Some send \<Rightarrow> (case send productId of Resolved b \<Rightarrow> Some b | Threw \<Rightarrow> Some False))"

text \<open>\<^verbatim>\<open>sendStockAlert(product, stockCount)\<close>: the \<^verbatim>\<open>success\<close> of its result.\<close>

definition sendStockAlert :: "alert_env \<Rightarrow> nat \<Rightarrow> bool" where
  "sendStockAlert a productId \<longleftrightarrow>
     channelResult (emailChannel a) productId = Some True \<or>
     channelResult (wechatChannel a) productId = Some True"

text \<open>
  The loop of \<^verbatim>\<open>checkAndAlert\<close> over the low-stock products: the flags afterwards and
  the products for which an alert was sent (\<^verbatim>\<open>alertsSent++\<close>), in order.
\<close>

fun alertLoop :: "alert_env \<Rightarrow> stock_item list \<Rightarrow> redis \<Rightarrow> redis \<times> nat list" where
  "alertLoop a [] r = (r, [])"
| "alertLoop a (item # items) r =
     (if hasRecentAlert r (a_now a) (si_productId item) then alertLoop a items r
      else if sendStockAlert a (si_productId item)
      then (case alertLoop a items (markAlertSent r (a_now a) (si_productId item)) of
              (r', sent) \<Rightarrow> (r', si_productId item # sent))
      else alertLoop a items r)"

record check_report =
  lowStockCount :: nat
  alertsSent :: nat
  alerted :: "nat list"

text \<open>\<^verbatim>\<open>checkAndAlert()\<close>\<close>

definition checkAndAlert :: "nat \<Rightarrow> alert_env \<Rightarrow> db \<Rightarrow> redis \<Rightarrow> check_report \<times> redis" where
  "checkAndAlert alertThreshold a d r =
     (let lowStockProducts = getLowStockProducts alertThreshold d in
      if length lowStockProducts = 0
      then (\<lparr>lowStockCount = 0, alertsSent = 0, alerted = []\<rparr>, r)
      else (case alertLoop a lowStockProducts r of
              (r', sent) \<Rightarrow>
                (\<lparr>lowStockCount = length lowStockProducts, alertsSent = length sent,
                  alerted = sent\<rparr>, r')))"

text \<open>
  The checks of \<^verbatim>\<open>startMonitoring\<close> and \<^verbatim>\<open>manualCheck\<close> one after the other, each
  at its own time and on the database of that moment.
\<close>

fun runChecks :: "nat \<Rightarrow> (alert_env \<times> db) list \<Rightarrow> redis \<Rightarrow> check_report list \<times> redis" where
  "runChecks alertThreshold [] r = ([], r)"
| "runChecks alertThreshold ((a, d) # rest) r =
     (case checkAndAlert alertThreshold a d r of
        (report, r1) \<Rightarrow>
          (case runChecks alertThreshold rest r1 of
             (reports, r2) \<Rightarrow> (report # reports, r2)))"

section \<open>Notions of the claims and example data\<close>

definition key_row :: "nat \<Rightarrow> nat \<Rightarrow> string \<Rightarrow> key_status \<Rightarrow> nat option \<Rightarrow> time \<Rightarrow> license_key" where
  "key_row i pid v st oid created =
     \<lparr>k_id = i, k_productId = pid, keyValueEncrypted = v, k_status = st, k_orderId = oid,
      k_createdAt = created, k_soldAt = None, k_revokedAt = None, k_revokeReason = None\<rparr>"

definition order_row :: "nat \<Rightarrow> string \<Rightarrow> rat \<Rightarrow> order_status \<Rightarrow> order_item list \<Rightarrow> order" where
  "order_row i n amount st items =
     \<lparr>o_id = i, orderNo = n, o_email = ''buyer@example.com'', totalAmount = amount,
      o_status = st, paymentMethod = ''alipay'', transactionId = None, paidAt = None,
      orderItems = items\<rparr>"

definition w11 :: order_item where
  "w11 = \<lparr>oi_productId = 1, oi_productName = ''W11'', oi_quantity = 1\<rparr>"

text \<open>A shop with one product, two keys in stock and one pending order for one key.\<close>

definition shop :: db where
  "shop =
     \<lparr>orders = [order_row 7 ''ORD7'' 299 Pending [w11]],
      licenseKeys = [key_row 1 1 ''c1'' Available None 100, key_row 2 1 ''c2'' Available None 200],
      products = [\<lparr>p_id = 1, p_name = ''W11'', p_active = True\<rparr>],
      nextKeyId = 3\<rparr>"

definition paid :: callback_params where
  "paid = \<lparr>cb_orderNo = ''ORD7'', cb_transactionId = ''T1'', cb_paymentMethod = ''alipay'',
           cb_status = ''success'', cb_amount = Finite 299\<rparr>"

definition world :: env where
  "world = \<lparr>now = 1000, decryptKey = (\<lambda>c. Some (rev c)), emailResolves = True,
            gatewayRefund = RefundSuccess\<rparr>"

definition alreadyProcessed :: callback_result where
  "alreadyProcessed =
     \<lparr>success = True, message = ''Order already processed'', res_orderNo = None\<rparr>"

text \<open>The shop after the callback \<open>paid\<close> at time 1000: key 1 belongs to order 7.\<close>

definition shop_sold :: db where
  "shop_sold =
     \<lparr>orders = [(order_row 7 ''ORD7'' 299 Completed [w11])
                  \<lparr>transactionId := Some ''T1'', paidAt := Some 1000\<rparr>],
      licenseKeys = [(key_row 1 1 ''c1'' Sold (Some 7) 100)\<lparr>k_soldAt := Some 1000\<rparr>,
                     key_row 2 1 ''c2'' Available None 200],
      products = [\<lparr>p_id = 1, p_name = ''W11'', p_active = True\<rparr>],
      nextKeyId = 3\<rparr>"

text \<open>The shop with a pending order for two keys and then one more of the same product.\<close>

definition greedy :: db where
  "greedy = shop\<lparr>orders := [order_row 7 ''ORD7'' 299 Pending [w11\<lparr>oi_quantity := 2\<rparr>, w11]]\<rparr>"


text \<open>
  The selection as claim C5 words it: the first \<open>quantity\<close> available keys of the
  product in the order of creation time ascending, then id ascending.
\<close>

definition spec_fifoSelection :: "db \<Rightarrow> nat \<Rightarrow> nat \<Rightarrow> license_key list" where
  "spec_fifoSelection d pid quantity =
     take quantity (sort_key (\<lambda>k. (k_createdAt k, k_id k))
       (filter (\<lambda>k. k_productId k = pid \<and> k_status k = Available) (licenseKeys d)))"

text \<open>Two keys imported at the same time, key 2 before key 1 in the table.\<close>

definition tied :: db where
  "tied = shop\<lparr>licenseKeys := [key_row 2 1 ''c2'' Available None 100,
                                key_row 1 1 ''c1'' Available None 100]\<rparr>"

text \<open>One key in stock and two pending orders for it.\<close>

definition rivals :: db where
  "rivals =
     \<lparr>orders = [order_row 7 ''ORD7'' 299 Pending [w11], order_row 8 ''ORD8'' 299 Pending [w11]],
      licenseKeys = [key_row 1 1 ''c1'' Available None 100],
      products = [\<lparr>p_id = 1, p_name = ''W11'', p_active = True\<rparr>],
      nextKeyId = 2\<rparr>"

text \<open>The shop after order 7 was completed and an administrator then revoked its key.\<close>

definition shop_revoked :: db where
  "shop_revoked = snd (revokeKey 2000 1 (Some ''leaked'') shop_sold)"

text \<open>What a test reads of a key row: id, status and order.\<close>

definition keyState :: "license_key \<Rightarrow> nat \<times> key_status \<times> nat option" where
  "keyState k = (k_id k, k_status k, k_orderId k)"

text \<open>
  A well-formed \<^verbatim>\<open>ENCRYPTION_KEY\<close>: set and not empty, and if it has 64 characters
  (the form \<^verbatim>\<open>generateEncryptionKey\<close> produces) they are hexadecimal digits.
\<close>

definition wellFormedKey :: "js_string option \<Rightarrow> bool" where
  "wellFormedKey envKey \<longleftrightarrow>
     (case envKey of
        None \<Rightarrow> False
      | Some key \<Rightarrow> key \<noteq> [] \<and> (length key = 64 \<longrightarrow> list_all isHexDigit key))"

text \<open>The JavaScript string of an ASCII text.\<close>

definition jsString :: "string \<Rightarrow> js_string" where
  "jsString s = map (\<lambda>c. of_nat (of_char c)) s"

text \<open>
  A stand-in for Node's library that meets \<open>crypto_contract\<close>: the cipher reverses the
  bytes and tags them with sixteen fixed bytes; a byte is its own Base64 character; the
  encoding of a string is the two bytes of each code unit of its well-formed version.
\<close>

definition unitBytes :: "16 word \<Rightarrow> string" where
  "unitBytes u = [char_of (unat u div 256), char_of (unat u mod 256)]"

fun bytesUnits :: "string \<Rightarrow> js_string" where
  "bytesUnits (a # b # rest) = of_nat (of_char a * 256 + of_char b) # bytesUnits rest"
| "bytesUnits _ = []"

definition test_lib :: crypto_lib where
  "test_lib =
     \<lparr>scryptSync = (\<lambda>pw. ''kkkkkkkkkkkkkkkkkkkkkkkkkkkkkkkk''),
      gcmEncrypt = (\<lambda>key iv text.
        if length key = 32 \<and> iv \<noteq> [] then Some (rev text, ''tttttttttttttttt'') else None),
      gcmDecrypt = (\<lambda>key iv enc tag.
        if length key = 32 \<and> iv \<noteq> [] \<and> tag = ''tttttttttttttttt'' then Some (rev enc) else None),
      base64Encode = (\<lambda>buf. map (\<lambda>c. of_nat (of_char c)) buf),
      base64Decode = (\<lambda>s. map (\<lambda>u. char_of (unat u)) s),
      utf8Encode = (\<lambda>s. concat (map unitBytes (toWellFormed s))),
      utf8Decode = bytesUnits\<rparr>"

text \<open>
  Claim C9 in terms of what a callback sends: no order-confirmation email goes out
  before the transaction has committed.
\<close>

fun isEmail :: "effect \<Rightarrow> bool" where
  "isEmail (OrderConfirmationEmail to ks) = True"
| "isEmail _ = False"

definition spec_emailAfterCommit :: "effect list \<Rightarrow> bool" where
  "spec_emailAfterCommit effs = list_all (\<lambda>x. \<not> isEmail x) (takeWhile (\<lambda>x. x \<noteq> Commit) effs)"

text \<open>A check at time \<open>t\<close> with a mail channel that delivers and no WeChat channel.\<close>

definition alerts_at :: "time \<Rightarrow> alert_env" where
  "alerts_at t = \<lparr>a_now = t, emailChannel = Some (\<lambda>p. Resolved True), wechatChannel = None\<rparr>"

text \<open>A check at time \<open>t\<close> whose only channel, the mail service, throws.\<close>

definition silent_at :: "time \<Rightarrow> alert_env" where
  "silent_at t = \<lparr>a_now = t, emailChannel = Some (\<lambda>p. Threw), wechatChannel = None\<rparr>"

section \<open>Facts about numbers\<close>

lemma floor_numeral_fraction:
  "\<lfloor>numeral a / numeral b :: rat\<rfloor> = numeral a div numeral b"
  by (metis floor_divide_of_int_eq of_int_numeral)

lemmas binade_defs = binade_def binadeUp.simps binadeDown.simps

lemmas double_defs = roundToDouble_def roundHalfEven_def Let_def floor_numeral_fraction

lemma roundToDouble_0: "roundToDouble 0 = Finite 0"
  by (simp add: roundToDouble_def)

lemma binade_299: "binade 299 = 8"
  by (simp add: binade_defs)

lemma roundToDouble_299: "roundToDouble 299 = Finite 299"
  by (simp add: double_defs binade_299)

lemma binade_cent: "binade (1 / 100) = - 7"
  by (simp add: binade_defs)

text \<open>The number \<^verbatim>\<open>0.01\<close> is a little more than a hundredth.\<close>

lemma roundToDouble_cent: "roundToDouble (1 / 100) = Finite (5764607523034235 / 2 ^ 59)"
  by (simp add: double_defs binade_cent)

lemma amount_299: "\<not> amountMismatch 299 (Finite 299)"
  by (simp add: amountMismatch_def roundToDouble_299 roundToDouble_cent roundToDouble_0)

text \<open>
  The test at its edge: the number \<^verbatim>\<open>1.01\<close> is a little more than 1.01, its distance
  from 1 is a double greater than the number \<^verbatim>\<open>0.01\<close>, and a payment of \<^verbatim>\<open>1.01\<close>
  for an order of 1.00 is a mismatch. \<^verbatim>\<open>NaN\<close> is never a mismatch.
\<close>

lemma binade_101: "binade (101 / 100) = 0"
  by (simp add: binade_defs)

lemma roundToDouble_101: "roundToDouble (101 / 100) = Finite (4548635623644201 / 2 ^ 52)"
  by (simp add: double_defs binade_101)

lemma binade_1: "binade 1 = 0"
  by (simp add: binade_defs)

lemma roundToDouble_1: "roundToDouble 1 = Finite 1"
  by (simp add: double_defs binade_1)

lemma amountMismatch_edge: "amountMismatch 1 (roundToDouble (101 / 100))"
proof -
  have "(1::rat) - 4548635623644201 / 2 ^ 52 = - (45035996273705 / 2 ^ 52)" by simp
  moreover have "binade (45035996273705 / 2 ^ 52) = - 7" by (simp add: binade_defs)
  ultimately have "roundToDouble (1 - 4548635623644201 / 2 ^ 52) =
                     Finite (- (45035996273705 / 2 ^ 52))"
    by (simp add: double_defs)
  then show ?thesis
    by (simp add: amountMismatch_def roundToDouble_101 roundToDouble_1 roundToDouble_cent)
qed

lemma amountMismatch_NaN: "\<not> amountMismatch orderTotal NaN"
  by (cases "roundToDouble orderTotal") (simp_all add: amountMismatch_def)

section \<open>Facts about the store\<close>

lemmas ex_defs = shop_def shop_sold_def paid_def world_def key_row_def order_row_def w11_def

lemmas run_defs = handlePaymentCallback_def transaction_def callbackBody_def findOrder_def
  completeOrder_def claimSelected_def findAvailableKeys_def markSold_def updateOrder_def
  sendConfirmation_def orderLicenseKeys_def itemLicenseKeys_def amount_299

lemma findOrder_updateOrder:
  assumes "findOrder d n = Some ord" and "\<And>r. orderNo (f r) = orderNo r"
  shows "findOrder (updateOrder d (o_id ord) f) n = Some (f ord)"
proof -
  have "find (\<lambda>r. orderNo r = n) xs = Some ord \<Longrightarrow>
        find (\<lambda>r. orderNo r = n) (map (\<lambda>r. if o_id r = o_id ord then f r else r) xs) = Some (f ord)"
    for xs
    by (induction xs) (auto simp: assms(2))
  with assms(1) show ?thesis by (simp add: findOrder_def updateOrder_def)
qed

lemma markSold_orders [simp]: "orders (markSold d ids oid t) = orders d"
  by (simp add: markSold_def)

lemma allocateItems_orders:
  "allocateItems t oid items d = Inr d' \<Longrightarrow> orders d' = orders d"
  by (induction items arbitrary: d) (auto simp: claimSelected_def split: if_splits sum.splits)

lemma findOrder_cong: "orders d' = orders d \<Longrightarrow> findOrder d' n = findOrder d n"
  by (simp add: findOrder_def)

text \<open>The import trims Unicode white space, here a no-break space, as well as blanks.\<close>

lemma trim_no_break_space: "trim ([CHR 0xC2, CHR 0xA0] @ ''K1 '' @ [CHR 0x09]) = ''K1''"
  by (simp add: trim_def stripLeading.simps whiteSpace_def)

section \<open>The idempotency guard of the payment callback\<close>

lemma callback_not_pending:
  "findOrder d (cb_orderNo p) = Some ord \<Longrightarrow> o_status ord \<noteq> Pending \<Longrightarrow>
   handlePaymentCallback e p d = (Inr alreadyProcessed, d, [Commit])"
  by (simp add: handlePaymentCallback_def transaction_def callbackBody_def alreadyProcessed_def)

text \<open>A callback that returns leaves its order in a status other than pending.\<close>

lemma callback_returns_not_pending:
  assumes "handlePaymentCallback e p d = (Inr r, d', effs)"
  shows "\<exists>ord'. findOrder d' (cb_orderNo p) = Some ord' \<and> o_status ord' \<noteq> Pending"
proof (cases "findOrder d (cb_orderNo p)")
  case None
  with assms show ?thesis
    by (simp add: handlePaymentCallback_def transaction_def callbackBody_def)
next
  case (Some ord)
  show ?thesis
  proof (cases "o_status ord = Pending")
    case False
    with Some assms show ?thesis
      by (auto simp: handlePaymentCallback_def transaction_def callbackBody_def)
  next
    case True
    note pend = this
    show ?thesis
    proof (cases "amountMismatch (totalAmount ord) (cb_amount p)")
      case True
      with Some pend assms show ?thesis
        by (simp add: handlePaymentCallback_def transaction_def callbackBody_def)
    next
      case False
      note amt = this
      show ?thesis
      proof (cases "cb_status p = ''success''")
        case False
        let ?f = "\<lambda>r. r\<lparr>transactionId := Some (cb_transactionId p), paidAt := Some (now e),
                         o_status := Cancelled\<rparr>"
        from False Some pend amt assms have d': "d' = updateOrder d (o_id ord) ?f"
          by (auto simp: handlePaymentCallback_def transaction_def callbackBody_def)
        show ?thesis unfolding d'
          using findOrder_updateOrder [OF Some, of ?f] by simp
      next
        case True
        let ?f = "\<lambda>r. r\<lparr>o_status := Completed, transactionId := Some (cb_transactionId p),
                         paidAt := Some (now e)\<rparr>"
        from True Some pend amt assms
        obtain d1 where al: "allocateItems (now e) (o_id ord) (orderItems ord) d = Inr d1"
          and d': "d' = updateOrder d1 (o_id ord) ?f"
          by (auto simp: handlePaymentCallback_def transaction_def callbackBody_def
              completeOrder_def Let_def split: sum.splits prod.splits)
        have "findOrder d1 (cb_orderNo p) = Some ord"
          using findOrder_cong [OF allocateItems_orders [OF al]] Some by simp
        from findOrder_updateOrder [OF this, of ?f]
        show ?thesis unfolding d' by simp
      qed
    qed
  qed
qed

lemma shop_run:
  "handlePaymentCallback world paid shop =
     (Inr \<lparr>success = True, message = ''Order completed'', res_orderNo = Some ''ORD7''\<rparr>,
      shop_sold, [OrderConfirmationEmail ''buyer@example.com'' [(1, 1, ''1c'')], Commit])"
  by (simp add: ex_defs run_defs)

text \<open>
  Claim C1. The payment callback is idempotent. For an order that is not pending when
  the callback's transaction starts, the handler returns success with the message
  ``Order already processed'' and the database (orders with their items, license keys)
  is the one it started from; nothing is sent. Consequently a callback that has
  returned, run a second time with the same payload on the database it left (at any
  time, with any collaborators), changes nothing: the order was completed once and one
  set of keys was allocated.
\<close>

theorem handlePaymentCallback_idempotent:
  "(\<forall>ord. findOrder d (cb_orderNo p) = Some ord \<and> o_status ord \<noteq> Pending \<longrightarrow>
      handlePaymentCallback e p d = (Inr alreadyProcessed, d, [Commit])) \<and>
   (\<forall>r d' effs. handlePaymentCallback e p d = (Inr r, d', effs) \<longrightarrow>
      handlePaymentCallback e' p d' = (Inr alreadyProcessed, d', [Commit]))"
proof (intro conjI allI impI)
  fix ord
  assume "findOrder d (cb_orderNo p) = Some ord \<and> o_status ord \<noteq> Pending"
  then show "handlePaymentCallback e p d = (Inr alreadyProcessed, d, [Commit])"
    by (simp add: callback_not_pending)
next
  fix r d' effs
  assume "handlePaymentCallback e p d = (Inr r, d', effs)"
  from callback_returns_not_pending [OF this]
  show "handlePaymentCallback e' p d' = (Inr alreadyProcessed, d', [Commit])"
    by (auto simp: callback_not_pending)
qed

theorem handlePaymentCallback_idempotent_witness:
  "handlePaymentCallback world paid shop =
     (Inr \<lparr>success = True, message = ''Order completed'', res_orderNo = Some ''ORD7''\<rparr>,
      shop_sold, [OrderConfirmationEmail ''buyer@example.com'' [(1, 1, ''1c'')], Commit]) \<and>
   (\<exists>ord. findOrder shop_sold (cb_orderNo paid) = Some ord \<and> o_status ord \<noteq> Pending) \<and>
   handlePaymentCallback world paid shop_sold = (Inr alreadyProcessed, shop_sold, [Commit])"
proof -
  have found: "findOrder shop_sold (cb_orderNo paid) =
                 Some ((order_row 7 ''ORD7'' 299 Completed [w11])
                        \<lparr>transactionId := Some ''T1'', paidAt := Some 1000\<rparr>)"
    by (simp add: ex_defs findOrder_def)
  have "handlePaymentCallback world paid shop_sold = (Inr alreadyProcessed, shop_sold, [Commit])"
    using handlePaymentCallback_idempotent [of shop_sold paid world world] found
    by (simp add: order_row_def)
  moreover have "handlePaymentCallback world paid shop_sold = (Inr alreadyProcessed, shop_sold, [Commit])"
    using handlePaymentCallback_idempotent [of shop paid world world] shop_run by simp
  ultimately show ?thesis using shop_run found by (simp add: order_row_def)
qed

section \<open>Insufficient inventory\<close>

lemma allocateItems_append:
  "allocateItems t oid (pre @ rest) d =
     (case allocateItems t oid pre d of Inl x \<Rightarrow> Inl x | Inr d1 \<Rightarrow> allocateItems t oid rest d1)"
  by (induction pre arbitrary: d) (auto split: sum.splits)

lemma length_findAvailableKeys:
  "length (findAvailableKeys d pid q) =
     min q (length (filter (\<lambda>k. k_productId k = pid \<and> k_status k = Available) (licenseKeys d)))"
  by (simp add: findAvailableKeys_def min.commute)

text \<open>
  Claim C3. A payment notification with status success for a pending order, whose
  amount is a number and passes the amount test of the source, reaches the
  allocation. If for some item of the order fewer than its quantity of keys of its
  product are available at the moment the item is reached (the items before it having
  been served, state \<open>d1\<close>), the body of the transaction throws the insufficiency
  error with the required and the available number, having written the keys of the
  earlier items (its database is \<open>d1\<close>); the transaction is rolled back, and the
  callback leaves the database it started from: the order is still pending and no key
  has changed.
\<close>

theorem insufficient_inventory_aborts:
  assumes found: "findOrder d (cb_orderNo p) = Some ord"
    and pending: "o_status ord = Pending"
    and number: "isNumber (cb_amount p)"
    and amount: "\<not> amountMismatch (totalAmount ord) (cb_amount p)"
    and paid: "cb_status p = ''success''"
    and items: "orderItems ord = pre @ item # post"
    and before: "allocateItems (now e) (o_id ord) pre d = Inr d1"
    and stock: "available =
                  length (filter (\<lambda>k. k_productId k = oi_productId item \<and> k_status k = Available)
                            (licenseKeys d1))"
    and short: "available < oi_quantity item"
  shows "callbackBody e p d =
           (Inl (BadRequestError
                  (InsufficientLicenseKeys (oi_productName item) (oi_quantity item) available)),
            d1, []) \<and>
         handlePaymentCallback e p d =
           (Inl (BadRequestError
                  (InsufficientLicenseKeys (oi_productName item) (oi_quantity item) available)),
            d, [Rollback])"
proof -
  let ?err = "BadRequestError
                (InsufficientLicenseKeys (oi_productName item) (oi_quantity item) available)"
  have len: "length (findAvailableKeys d1 (oi_productId item) (oi_quantity item)) = available"
    using stock short by (simp add: length_findAvailableKeys)
  have "allocateItems (now e) (o_id ord) (item # post) d1 = Inl (?err, d1)"
    using len short by (simp add: claimSelected_def)
  then have "allocateItems (now e) (o_id ord) (orderItems ord) d = Inl (?err, d1)"
    using before by (simp add: items allocateItems_append)
  then have body: "callbackBody e p d = (Inl ?err, d1, [])"
    using found pending amount paid by (simp add: callbackBody_def completeOrder_def)
  then show ?thesis
    by (simp add: handlePaymentCallback_def transaction_def)
qed

theorem insufficient_inventory_aborts_witness:
  "findOrder greedy (cb_orderNo paid) =
     Some (order_row 7 ''ORD7'' 299 Pending [w11\<lparr>oi_quantity := 2\<rparr>, w11]) \<and>
   isNumber (cb_amount paid) \<and>
   \<not> amountMismatch 299 (cb_amount paid) \<and>
   map k_status (licenseKeys greedy) = [Available, Available] \<and>
   (\<exists>d1. allocateItems (now world) 7 [w11\<lparr>oi_quantity := 2\<rparr>] greedy = Inr d1 \<and>
         map k_status (licenseKeys d1) = [Sold, Sold]) \<and>
   map k_status (licenseKeys (fst (snd (callbackBody world paid greedy)))) = [Sold, Sold] \<and>
   handlePaymentCallback world paid greedy =
     (Inl (BadRequestError (InsufficientLicenseKeys ''W11'' 1 0)), greedy, [Rollback])"
proof -
  let ?ord = "order_row 7 ''ORD7'' 299 Pending [w11\<lparr>oi_quantity := 2\<rparr>, w11]"
  let ?d1 = "markSold greedy [1, 2] 7 1000"
  have found: "findOrder greedy (cb_orderNo paid) = Some ?ord"
    by (simp add: greedy_def ex_defs findOrder_def)
  have number: "isNumber (cb_amount paid)"
    by (simp add: paid_def isNumber_def roundToDouble_299)
  have amount: "\<not> amountMismatch 299 (cb_amount paid)"
    by (simp add: paid_def amount_299)
  have before: "allocateItems (now world) (o_id ?ord) [w11\<lparr>oi_quantity := 2\<rparr>] greedy = Inr ?d1"
    by (simp add: greedy_def ex_defs claimSelected_def findAvailableKeys_def markSold_def)
  have stock: "(0::nat) =
                 length (filter (\<lambda>k. k_productId k = oi_productId w11 \<and> k_status k = Available)
                           (licenseKeys ?d1))"
    by (simp add: greedy_def ex_defs markSold_def)
  have "callbackBody world paid greedy =
          (Inl (BadRequestError
                 (InsufficientLicenseKeys (oi_productName w11) (oi_quantity w11) 0)),
           ?d1, []) \<and>
        handlePaymentCallback world paid greedy =
          (Inl (BadRequestError
                 (InsufficientLicenseKeys (oi_productName w11) (oi_quantity w11) 0)),
           greedy, [Rollback])"
    by (rule insufficient_inventory_aborts [OF found _ number _ _ _ before stock])
       (simp_all add: ex_defs amount_299)
  moreover have "map k_status (licenseKeys ?d1) = [Sold, Sold]"
    by (simp add: greedy_def ex_defs markSold_def)
  moreover have "map k_status (licenseKeys greedy) = [Available, Available]"
    by (simp add: greedy_def ex_defs)
  moreover have "o_id ?ord = 7" by (simp add: order_row_def)
  ultimately show ?thesis using found before number amount by (simp add: w11_def)
qed

section \<open>Refund\<close>

lemma releaseKeys_orders [simp]: "orders (releaseKeys d ids) = orders d"
  by (simp add: releaseKeys_def)

lemma releaseKeys_nil [simp]: "releaseKeys d [] = d"
  by (simp add: releaseKeys_def)






section \<open>Order of allocation\<close>

lemma insort_key_cong_order:
  assumes "\<And>y. y \<in> set ys \<Longrightarrow> (f x \<le> f y) = (g x \<le> g y)"
  shows "insort_key f x ys = insort_key g x ys"
  using assms by (induction ys) auto

lemma sort_key_cong_order:
  assumes "\<And>x y. x \<in> set xs \<Longrightarrow> y \<in> set xs \<Longrightarrow> (f x \<le> f y) = (g x \<le> g y)"
  shows "sort_key f xs = sort_key g xs"
  using assms
proof (induction xs)
  case Nil
  then show ?case by simp
next
  case (Cons x xs)
  have ih: "sort_key f xs = sort_key g xs" using Cons by simp
  have "insort_key f x (sort_key g xs) = insort_key g x (sort_key g xs)"
    by (rule insort_key_cong_order) (simp add: Cons.prems)
  then show ?case by (simp add: ih)
qed

lemma take_drop_sorted_le:
  assumes "sorted (map f xs)" and "x \<in> set (take n xs)" and "y \<in> set (drop n xs)"
  shows "f x \<le> f y"
proof -
  have "sorted (map f (take n xs) @ map f (drop n xs))"
    using assms(1) by (simp flip: map_append)
  then show ?thesis using assms(2,3) by (auto simp: sorted_append)
qed

text \<open>
  Claim C5, as stated, fails: the query orders by creation time only. Of two available
  keys of product 1 created at the same time, with key 2 first in the table, the
  allocation of one key selects key 2; the least key under (creation time, id) is key 1.
\<close>

theorem findAvailableKeys_not_by_id:
  "map k_id (findAvailableKeys tied 1 1) = [2] \<and> map k_id (spec_fifoSelection tied 1 1) = [1]"
  by (simp add: tied_def ex_defs findAvailableKeys_def spec_fifoSelection_def)

text \<open>
  Claim C5, amended. When the product has at least \<open>quantity\<close> available keys, the
  allocation selects exactly \<open>quantity\<close> of them, in order of creation time, and no
  available key of the product that it leaves is older than one it selects: the oldest
  keys are sold first. Keys of equal creation time come in the order of the store, not
  of their ids; where the creation times of the available keys differ pairwise, the
  selection is the one under (creation time, id). The selection is a function of the
  database.
\<close>

theorem findAvailableKeys_fifo:
  assumes avail: "avail = filter (\<lambda>k. k_productId k = pid \<and> k_status k = Available) (licenseKeys d)"
    and enough: "quantity \<le> length avail"
    and sel: "sel = findAvailableKeys d pid quantity"
  shows "length sel = quantity \<and> set sel \<subseteq> set avail \<and> sorted (map k_createdAt sel) \<and>
         (\<forall>k \<in> set sel. \<forall>k' \<in> set avail - set sel. k_createdAt k \<le> k_createdAt k') \<and>
         (distinct (map k_createdAt avail) \<longrightarrow> sel = spec_fifoSelection d pid quantity)"
proof -
  let ?s = "sort_key k_createdAt avail"
  have sel': "sel = take quantity ?s" by (simp add: sel avail findAvailableKeys_def)
  have len: "length sel = quantity" using enough by (simp add: sel')
  have sub: "set sel \<subseteq> set avail" using set_take_subset [of quantity ?s] by (simp add: sel')
  have srt: "sorted (map k_createdAt ?s)" by simp
  have srt_sel: "sorted (map k_createdAt sel)"
    unfolding sel' using srt by (simp add: take_map [symmetric] del: sorted_sort_key)
  have older: "\<forall>k \<in> set sel. \<forall>k' \<in> set avail - set sel. k_createdAt k \<le> k_createdAt k'"
  proof (intro ballI)
    fix k k' assume k: "k \<in> set sel" and k': "k' \<in> set avail - set sel"
    have "set avail = set (take quantity ?s) \<union> set (drop quantity ?s)"
      by (metis append_take_drop_id set_append set_sort)
    with k' have "k' \<in> set (drop quantity ?s)" by (auto simp: sel')
    with k show "k_createdAt k \<le> k_createdAt k'"
      using take_drop_sorted_le [OF srt] by (simp add: sel')
  qed
  have ties: "distinct (map k_createdAt avail) \<longrightarrow> sel = spec_fifoSelection d pid quantity"
  proof
    assume "distinct (map k_createdAt avail)"
    then have inj: "inj_on k_createdAt (set avail)" by (simp add: distinct_map)
    have "sort_key k_createdAt avail = sort_key (\<lambda>k. (k_createdAt k, k_id k)) avail"
    proof (rule sort_key_cong_order)
      fix x y assume "x \<in> set avail" "y \<in> set avail"
      with inj have "k_createdAt x = k_createdAt y \<Longrightarrow> x = y" by (auto dest: inj_onD)
      then show "(k_createdAt x \<le> k_createdAt y) =
                 ((k_createdAt x, k_id x) \<le> (k_createdAt y, k_id y))"
        by (auto simp: less_eq_prod_def)
    qed
    then show "sel = spec_fifoSelection d pid quantity"
      by (simp add: sel' spec_fifoSelection_def avail)
  qed
  from len sub srt_sel older ties show ?thesis by blast
qed

theorem findAvailableKeys_fifo_witness:
  "filter (\<lambda>k. k_productId k = 1 \<and> k_status k = Available) (licenseKeys shop) =
     [key_row 1 1 ''c1'' Available None 100, key_row 2 1 ''c2'' Available None 200] \<and>
   findAvailableKeys shop 1 1 = [key_row 1 1 ''c1'' Available None 100] \<and>
   distinct (map k_createdAt
     [key_row 1 1 ''c1'' Available None 100, key_row 2 1 ''c2'' Available None 200]) \<and>
   findAvailableKeys shop 1 1 = spec_fifoSelection shop 1 1"
proof -
  let ?avail = "[key_row 1 1 ''c1'' Available None 100, key_row 2 1 ''c2'' Available None 200]"
  have avail: "?avail = filter (\<lambda>k. k_productId k = 1 \<and> k_status k = Available) (licenseKeys shop)"
    by (simp add: ex_defs)
  have enough: "1 \<le> length ?avail" by simp
  have dist: "distinct (map k_createdAt ?avail)" by (simp add: key_row_def)
  have sel: "findAvailableKeys shop 1 1 = [key_row 1 1 ''c1'' Available None 100]"
    by (simp add: ex_defs findAvailableKeys_def)
  from findAvailableKeys_fifo [OF avail enough refl] dist
  have "findAvailableKeys shop 1 1 = spec_fifoSelection shop 1 1" by blast
  with avail dist sel show ?thesis by simp
qed

section \<open>The writes of allocation, refund and import\<close>

text \<open>
  Claim C2 (the batched mark-sold write touches only rows still available, and the
  allocation checks the number of rows written, so that two allocations never both
  claim one key) does not hold of the code: the \<^verbatim>\<open>updateMany\<close> of \<^verbatim>\<open>_completeOrder\<close>
  selects by id alone and its count is not read. Two callbacks for orders 7 and 8 both
  run their \<^verbatim>\<open>findMany\<close> on the database with key 1 available; the callback of
  order 7 writes first, and key 1 is sold to order 7; the callback of order 8 then
  passes its check with the row it had found and writes the same key, which is now
  sold to order 8.
\<close>

theorem markSold_overwrites_sold_key:
  "map keyState (findAvailableKeys rivals 1 1) = [(1, Available, None)] \<and>
   claimSelected 1000 7 w11 (findAvailableKeys rivals 1 1) rivals =
     Inr (markSold rivals [1] 7 1000) \<and>
   map keyState (licenseKeys (markSold rivals [1] 7 1000)) = [(1, Sold, Some 7)] \<and>
   claimSelected 1001 8 w11 (findAvailableKeys rivals 1 1) (markSold rivals [1] 7 1000) =
     Inr (markSold (markSold rivals [1] 7 1000) [1] 8 1001) \<and>
   map keyState (licenseKeys (markSold (markSold rivals [1] 7 1000) [1] 8 1001)) =
     [(1, Sold, Some 8)]"
  by (simp add: rivals_def ex_defs keyState_def findAvailableKeys_def claimSelected_def markSold_def)

text \<open>
  Claim C6 (a revoked key stays revoked under every operation, in particular a refund
  never returns a revoked key to the pool) does not hold of the code: \<^verbatim>\<open>refundOrder\<close>
  releases every key linked to the order whatever its status. Key 1 was sold to order 7
  and then revoked; the refund of order 7 makes it available again.
\<close>

theorem refundOrder_releases_revoked_key:
  "revokeKey 2000 1 (Some ''leaked'') shop_sold = (RevokedOk, shop_revoked) \<and>
   map keyState (licenseKeys shop_revoked) = [(1, Revoked, Some 7), (2, Available, None)] \<and>
   map o_status (orders shop_revoked) = [Completed] \<and>
   map keyState (licenseKeys (fst (snd (refundOrder world ''ORD7'' None shop_revoked)))) =
     [(1, Available, None), (2, Available, None)] \<and>
   map o_status (orders (fst (snd (refundOrder world ''ORD7'' None shop_revoked)))) = [Refunded]"
  by (simp add: shop_revoked_def revokeKey_def ex_defs keyState_def refundOrder_def refundBody_def
        transaction_def findOrder_def orderLicenseKeys_def itemLicenseKeys_def releaseKeys_def
        updateOrder_def)

text \<open>
  Claim C7 (every stored \<^verbatim>\<open>keyValueEncrypted\<close> is a ciphertext of the Key Vault, the
  bulk import encrypting each key before it stores it) does not hold of the code: the
  handler of the bulk import never calls \<^verbatim>\<open>encrypt\<close>, and the row it creates holds the
  imported key itself.
\<close>

theorem bulkImport_stores_plaintext:
  "bulkImport 3000 1 [''AAAAA-BBBBB-CCCCC''] shop =
     (Imported 1 0 1,
      shop\<lparr>licenseKeys := licenseKeys shop @ [key_row 3 1 ''AAAAA-BBBBB-CCCCC'' Available None 3000],
           nextKeyId := 4\<rparr>) \<and>
   map keyValueEncrypted (licenseKeys (snd (bulkImport 3000 1 [''AAAAA-BBBBB-CCCCC''] shop))) =
     [''c1'', ''c2'', ''AAAAA-BBBBB-CCCCC'']"
  by (simp add: bulkImport_def ex_defs trim_def stripLeading.simps whiteSpace_def
        uniqueInOrder_def)

section \<open>Key Vault round trip\<close>

lemma hexval_isHexDigit: "isHexDigit c \<Longrightarrow> hexval c \<noteq> None"
  by (auto simp: isHexDigit_def hexval_def Let_def word_le_nat_alt)

lemma length_hexDecode:
  "list_all isHexDigit s \<Longrightarrow> length (hexDecode s) = length s div 2"
proof (induction s rule: hexDecode.induct)
  case (1 a b rest)
  then obtain x y where "hexval a = Some x" "hexval b = Some y"
    using hexval_isHexDigit [of a] hexval_isHexDigit [of b] by auto
  with 1 show ?case by simp
qed simp_all

lemma getEncryptionKey_wellFormed:
  assumes "crypto_contract L" and "wellFormedKey envKey"
  shows "\<exists>key. getEncryptionKey L envKey = Some key \<and> length key = KEY_LENGTH"
proof -
  from assms(2) obtain s where s: "envKey = Some s" "s \<noteq> []"
    and hex: "length s = 64 \<longrightarrow> list_all isHexDigit s"
    by (auto simp: wellFormedKey_def split: option.splits)
  show ?thesis
  proof (cases "length s = 64")
    case True
    with hex have "length (hexDecode s) = 32" by (simp add: length_hexDecode)
    with True s show ?thesis by (simp add: getEncryptionKey_def KEY_LENGTH_def)
  next
    case False
    with s assms(1) show ?thesis by (simp add: getEncryptionKey_def crypto_contract_def)
  qed
qed

lemma subarray_frame:
  assumes "length iv = 16" and "length tag = 16"
  shows "subarray (iv @ enc @ tag) 0 16 = iv"
    and "subarray (iv @ enc @ tag) (int (length (iv @ enc @ tag)) - 16) (int (length (iv @ enc @ tag))) = tag"
    and "subarray (iv @ enc @ tag) 16 (int (length (iv @ enc @ tag)) - 16) = enc"
  using assms by (auto simp: subarray_def Let_def min_def max_def)

lemma base64_inj:
  "crypto_contract L \<Longrightarrow> base64Encode L a = base64Encode L b \<Longrightarrow> a = b"
  by (metis crypto_contract_def)

text \<open>What comes back from the vault is the well-formed version of what went in.\<close>

lemma roundTrip_toWellFormed:
  assumes lib: "crypto_contract L" and key: "wellFormedKey envKey" and iv: "length iv = IV_LENGTH"
  shows "roundTrip L envKey iv k = Inr (toWellFormed k)"
proof -
  from getEncryptionKey_wellFormed [OF lib key]
  obtain ky where ky: "getEncryptionKey L envKey = Some ky" "length ky = KEY_LENGTH" by blast
  from lib ky(2) iv obtain enc tag
    where e: "gcmEncrypt L ky iv (utf8Encode L k) = Some (enc, tag)"
      and t: "length tag = TAG_LENGTH"
      and d: "gcmDecrypt L ky iv enc tag = Some (utf8Encode L k)"
    unfolding crypto_contract_def by blast
  let ?c = "base64Encode L (iv @ enc @ tag)"
  have c: "encrypt L envKey iv k = Inr ?c" by (simp add: encrypt_def ky e)
  have b64: "base64Decode L ?c = iv @ enc @ tag" using lib by (simp add: crypto_contract_def)
  have utf8: "utf8Decode L (utf8Encode L k) = toWellFormed k"
    using lib by (simp add: crypto_contract_def)
  have iv16: "length iv = 16" and tag16: "length tag = 16"
    using iv t by (simp_all add: IV_LENGTH_def TAG_LENGTH_def)
  have "decrypt L envKey ?c = Inr (toWellFormed k)"
    using subarray_frame [OF iv16 tag16, of enc] d
    by (simp add: decrypt_def ky b64 utf8 Let_def IV_LENGTH_def TAG_LENGTH_def)
  with c show ?thesis by (simp add: roundTrip_def)
qed

lemma unitBytes_inverse: "bytesUnits (unitBytes u @ rest) = u # bytesUnits rest"
proof -
  have "unat u < 65536" using unsigned_less [of u, where ?'a = nat] by simp
  then have hi: "unat u div 256 < 256" by simp
  have "unat u div 256 mod 256 * 256 + unat u mod 256 = unat u"
    using hi by simp
  then have "of_nat (of_char (char_of (unat u div 256)) * 256 + of_char (char_of (unat u mod 256))) = u"
    by simp
  then show ?thesis by (simp add: unitBytes_def)
qed

lemma bytesUnits_encode: "bytesUnits (concat (map unitBytes s)) = s"
  by (induction s) (simp_all add: unitBytes_inverse)

lemma test_lib_contract: "crypto_contract test_lib"
proof -
  have "char_of (unat (of_nat (of_char c) :: 16 word)) = c" for c :: char
  proof -
    have "(of_char c :: nat) < 256" by simp
    then have "(of_char c :: nat) < 65536" by linarith
    then have "(of_char c :: nat) mod 65536 = of_char c" by (rule mod_less)
    then have "unat (of_nat (of_char c) :: 16 word) = of_char c"
      by (simp add: unat_of_nat)
    then show ?thesis by simp
  qed
  then have "map (\<lambda>u. char_of (unat u)) (map (\<lambda>c. of_nat (of_char c) :: 16 word) buf) = buf" for buf
    by (induction buf) simp_all
  then show ?thesis
    by (auto simp: crypto_contract_def test_lib_def KEY_LENGTH_def IV_LENGTH_def TAG_LENGTH_def
          bytesUnits_encode)
qed

lemma key_secret: "wellFormedKey (Some (jsString ''secret''))"
  by (simp add: wellFormedKey_def jsString_def)

text \<open>
  Claim C8, as stated, fails: not every plaintext string comes back. The string of the
  single code unit U+D800, an unpaired surrogate, is encrypted as U+FFFD and comes
  back as U+FFFD.
\<close>

theorem roundTrip_lone_surrogate:
  "crypto_contract test_lib \<and> wellFormedKey (Some (jsString ''secret'')) \<and>
   length ''0123456789abcdef'' = IV_LENGTH \<and>
   roundTrip test_lib (Some (jsString ''secret'')) ''0123456789abcdef'' [0xD800] = Inr [0xFFFD] \<and>
   roundTrip test_lib (Some (jsString ''secret'')) ''0123456789abcdef'' [0xD800] \<noteq> Inr [0xD800]"
proof -
  have iv: "length ''0123456789abcdef'' = IV_LENGTH" by (simp add: IV_LENGTH_def)
  have "roundTrip test_lib (Some (jsString ''secret'')) ''0123456789abcdef'' [0xD800] =
          Inr [0xFFFD]"
    using roundTrip_toWellFormed [OF test_lib_contract key_secret iv, of "[0xD800]"]
    by (simp add: isHighSurrogate_def)
  with test_lib_contract key_secret iv show ?thesis by simp
qed

text \<open>
  Claim C8, amended. With Node's library as its documentation describes it
  (\<open>crypto_contract\<close>), a well-formed encryption key and a nonce of \<^verbatim>\<open>IV_LENGTH\<close>
  bytes: for every plaintext string, \<^verbatim>\<open>decrypt(encrypt(k))\<close> is \<open>k\<close> with each unpaired
  surrogate replaced by U+FFFD, so it is \<open>k\<close> for every well-formed string; and two
  encryptions of one plaintext under different nonces give different ciphertexts.
\<close>

theorem encrypt_decrypt_roundtrip:
  assumes lib: "crypto_contract L" and key: "wellFormedKey envKey" and iv: "length iv = IV_LENGTH"
  shows "roundTrip L envKey iv k = Inr (toWellFormed k) \<and>
         (isWellFormed k \<longrightarrow>
            (\<exists>c. encrypt L envKey iv k = Inr c \<and> decrypt L envKey c = Inr k)) \<and>
         (\<forall>iv'. length iv' = IV_LENGTH \<and> iv' \<noteq> iv \<longrightarrow>
            (\<exists>c c'. encrypt L envKey iv k = Inr c \<and> encrypt L envKey iv' k = Inr c' \<and> c' \<noteq> c))"
proof -
  from getEncryptionKey_wellFormed [OF lib key]
  obtain ky where ky: "getEncryptionKey L envKey = Some ky" "length ky = KEY_LENGTH" by blast
  have enc_ex: "\<exists>enc tag. gcmEncrypt L ky v (utf8Encode L k) = Some (enc, tag)"
    if "length v = IV_LENGTH" for v
    using lib ky(2) that unfolding crypto_contract_def by blast
  from enc_ex [OF iv] obtain enc tag
    where e: "gcmEncrypt L ky iv (utf8Encode L k) = Some (enc, tag)" by blast
  let ?c = "base64Encode L (iv @ enc @ tag)"
  have c: "encrypt L envKey iv k = Inr ?c" by (simp add: encrypt_def ky e)
  have rt: "roundTrip L envKey iv k = Inr (toWellFormed k)"
    by (rule roundTrip_toWellFormed [OF lib key iv])
  then have dec: "decrypt L envKey ?c = Inr (toWellFormed k)" by (simp add: roundTrip_def c)
  have wf: "isWellFormed k \<longrightarrow>
              (\<exists>c. encrypt L envKey iv k = Inr c \<and> decrypt L envKey c = Inr k)"
    using c dec by (auto simp: isWellFormed_def)
  have fresh: "\<exists>c c'. encrypt L envKey iv k = Inr c \<and> encrypt L envKey iv' k = Inr c' \<and> c' \<noteq> c"
    if len: "length iv' = IV_LENGTH" and ne: "iv' \<noteq> iv" for iv'
  proof -
    from enc_ex [OF len] obtain enc' tag'
      where e': "gcmEncrypt L ky iv' (utf8Encode L k) = Some (enc', tag')" by blast
    let ?c' = "base64Encode L (iv' @ enc' @ tag')"
    have c': "encrypt L envKey iv' k = Inr ?c'" by (simp add: encrypt_def ky e')
    have "?c' \<noteq> ?c"
    proof
      assume "?c' = ?c"
      then have "iv' @ enc' @ tag' = iv @ enc @ tag" by (rule base64_inj [OF lib])
      with iv len have "iv' = iv" by simp
      with ne show False by simp
    qed
    with c c' show ?thesis by blast
  qed
  from rt wf fresh show ?thesis by blast
qed

theorem encrypt_decrypt_roundtrip_witness:
  "crypto_contract test_lib \<and> wellFormedKey (Some (jsString ''secret'')) \<and>
   length ''0123456789abcdef'' = IV_LENGTH \<and> length ''fedcba9876543210'' = IV_LENGTH \<and>
   isWellFormed (jsString ''XXXXX-YYYYY'') \<and>
   roundTrip test_lib (Some (jsString ''secret'')) ''0123456789abcdef'' (jsString ''XXXXX-YYYYY'') =
     Inr (jsString ''XXXXX-YYYYY'') \<and>
   encrypt test_lib (Some (jsString ''secret'')) ''fedcba9876543210'' (jsString ''XXXXX-YYYYY'') \<noteq>
     encrypt test_lib (Some (jsString ''secret'')) ''0123456789abcdef'' (jsString ''XXXXX-YYYYY'')"
proof -
  have iv: "length ''0123456789abcdef'' = IV_LENGTH" by (simp add: IV_LENGTH_def)
  have iv': "length ''fedcba9876543210'' = IV_LENGTH" by (simp add: IV_LENGTH_def)
  have wf: "isWellFormed (jsString ''XXXXX-YYYYY'')"
    by (simp add: isWellFormed_def jsString_def isHighSurrogate_def isLowSurrogate_def)
  note rt = encrypt_decrypt_roundtrip [OF test_lib_contract key_secret iv,
      of "jsString ''XXXXX-YYYYY''"]
  from rt wf
  have same: "roundTrip test_lib (Some (jsString ''secret'')) ''0123456789abcdef''
                (jsString ''XXXXX-YYYYY'') = Inr (jsString ''XXXXX-YYYYY'')"
    by (simp add: isWellFormed_def)
  from rt [THEN conjunct2, THEN conjunct2, THEN spec, of "''fedcba9876543210''"] iv'
  have ne: "encrypt test_lib (Some (jsString ''secret'')) ''fedcba9876543210''
              (jsString ''XXXXX-YYYYY'') \<noteq>
            encrypt test_lib (Some (jsString ''secret'')) ''0123456789abcdef''
              (jsString ''XXXXX-YYYYY'')"
    by auto
  from test_lib_contract key_secret iv iv' wf same ne show ?thesis by simp
qed

section \<open>The confirmation email\<close>

lemma completeOrder_env:
  "now e' = now e \<Longrightarrow>
   fst (completeOrder e' ord txid d) = fst (completeOrder e ord txid d) \<and>
   fst (snd (completeOrder e' ord txid d)) = fst (snd (completeOrder e ord txid d))"
  by (simp add: completeOrder_def Let_def split: sum.splits prod.splits)

lemma callbackBody_env:
  assumes "now e' = now e"
  shows "fst (callbackBody e' p d) = fst (callbackBody e p d) \<and>
         fst (snd (callbackBody e' p d)) = fst (snd (callbackBody e p d))"
proof (cases "findOrder d (cb_orderNo p)")
  case None
  then show ?thesis by (simp add: callbackBody_def)
next
  case (Some ord)
  show ?thesis
  proof (cases "allocateItems (now e) (o_id ord) (orderItems ord) d")
    case (Inl x)
    with Some assms show ?thesis
      by (cases x) (simp add: callbackBody_def completeOrder_def)
  next
    case (Inr d1)
    with Some assms show ?thesis by (simp add: callbackBody_def completeOrder_def Let_def)
  qed
qed

lemma transaction_fst:
  "fst (transaction body d) = fst (body d)"
  by (simp add: transaction_def split: prod.splits sum.splits)

lemma transaction_db:
  "fst (snd (transaction body d)) = (case fst (body d) of Inl err \<Rightarrow> d | Inr r \<Rightarrow> fst (snd (body d)))"
  by (simp add: transaction_def split: prod.splits sum.splits)

lemma sendConfirmation_single: "\<exists>x. sendConfirmation e d ord = [x]"
  by (simp add: sendConfirmation_def split: option.splits)

lemma callback_effects:
  "snd (snd (handlePaymentCallback e p d)) = [Rollback] \<or>
   snd (snd (handlePaymentCallback e p d)) = [Commit] \<or>
   (\<exists>x. snd (snd (handlePaymentCallback e p d)) = [x, Commit])"
proof (cases "findOrder d (cb_orderNo p)")
  case None
  then show ?thesis
    by (simp add: handlePaymentCallback_def transaction_def callbackBody_def)
next
  case (Some ord)
  show ?thesis
  proof (cases "allocateItems (now e) (o_id ord) (orderItems ord) d")
    case (Inl x)
    with Some show ?thesis
      by (cases x)
         (simp add: handlePaymentCallback_def transaction_def callbackBody_def completeOrder_def)
  next
    case (Inr d1)
    let ?d2 = "updateOrder d1 (o_id ord)
                 (\<lambda>r. r\<lparr>o_status := Completed, transactionId := Some (cb_transactionId p),
                           paidAt := Some (now e)\<rparr>)"
    from sendConfirmation_single obtain x where "sendConfirmation e ?d2 ord = [x]" by blast
    with Some Inr show ?thesis
      by (simp add: handlePaymentCallback_def transaction_def callbackBody_def completeOrder_def
            Let_def)
  qed
qed

text \<open>
  Claim C9, as stated, fails in its first half: the email is sent by \<^verbatim>\<open>_completeOrder\<close>,
  inside the callback of \<^verbatim>\<open>prisma.$transaction\<close>, before the transaction commits. In the
  run of the paid callback on the shop the email precedes the commit.
\<close>

theorem email_sent_before_commit:
  "snd (snd (handlePaymentCallback world paid shop)) =
     [OrderConfirmationEmail ''buyer@example.com'' [(1, 1, ''1c'')], Commit] \<and>
   \<not> spec_emailAfterCommit (snd (snd (handlePaymentCallback world paid shop)))"
  by (simp add: shop_run spec_emailAfterCommit_def)

text \<open>
  Claim C9, amended. The order-confirmation email is sent inside the payment
  transaction, after the writes of the allocation and before the commit: the
  transaction of a run that sent an email commits right after it. A failure of the
  email step (of the decryption or of the mail service) never rolls back: two runs of
  the callback at the same time on the same database return the same result and leave
  the same database, whether their email steps succeed or throw; so when the email
  throws the order ends completed with its keys allocated exactly as if the email had
  been sent.
\<close>

theorem email_failure_keeps_transaction:
  assumes clock: "now e' = now e"
    and run: "handlePaymentCallback e p d = (res, d', effs)"
  shows "(\<exists>effs'. handlePaymentCallback e' p d = (res, d', effs')) \<and>
         (\<forall>x \<in> set effs. isEmail x \<longrightarrow> effs = [x, Commit])"
proof -
  from callbackBody_env [OF clock, of p d]
  have res: "fst (callbackBody e' p d) = fst (callbackBody e p d)"
    and db: "fst (snd (callbackBody e' p d)) = fst (snd (callbackBody e p d))"
    by simp_all
  have "fst (handlePaymentCallback e' p d) = fst (handlePaymentCallback e p d)"
    and "fst (snd (handlePaymentCallback e' p d)) = fst (snd (handlePaymentCallback e p d))"
    by (simp_all add: handlePaymentCallback_def transaction_fst transaction_db res db
          split: sum.splits)
  with run have "\<exists>effs'. handlePaymentCallback e' p d = (res, d', effs')"
    by (cases "handlePaymentCallback e' p d") simp
  moreover have "\<forall>x \<in> set effs. isEmail x \<longrightarrow> effs = [x, Commit]"
    using callback_effects [of e p d] run by auto
  ultimately show ?thesis by blast
qed

theorem email_failure_keeps_transaction_witness:
  "now world = now (world\<lparr>emailResolves := False\<rparr>) \<and>
   handlePaymentCallback (world\<lparr>emailResolves := False\<rparr>) paid shop =
     (Inr \<lparr>success = True, message = ''Order completed'', res_orderNo = Some ''ORD7''\<rparr>,
      shop_sold, [EmailFailureLogged, Commit]) \<and>
   (\<exists>effs'. handlePaymentCallback world paid shop =
     (Inr \<lparr>success = True, message = ''Order completed'', res_orderNo = Some ''ORD7''\<rparr>,
      shop_sold, effs'))"
proof -
  have clock: "now world = now (world\<lparr>emailResolves := False\<rparr>)" by simp
  have run: "handlePaymentCallback (world\<lparr>emailResolves := False\<rparr>) paid shop =
     (Inr \<lparr>success = True, message = ''Order completed'', res_orderNo = Some ''ORD7''\<rparr>,
      shop_sold, [EmailFailureLogged, Commit])"
    by (simp add: ex_defs run_defs)
  from email_failure_keeps_transaction [OF clock run] clock run show ?thesis by blast
qed

section \<open>Cooldown of the low-stock alert\<close>

text \<open>The flags after the loop: those of the alerted products are new, the others are kept.\<close>

lemma alertLoop_flags:
  "alertLoop a items r = (r', sent) \<Longrightarrow>
   r' pid = (if pid \<in> set sent then Some (a_now a + ALERT_COOLDOWN) else r pid)"
proof (induction items arbitrary: r r' sent)
  case Nil
  then show ?case by simp
next
  case (Cons item items)
  show ?case
  proof (cases "hasRecentAlert r (a_now a) (si_productId item) \<or> \<not> sendStockAlert a (si_productId item)")
    case True
    with Cons.prems have "alertLoop a items r = (r', sent)" by (auto split: if_splits)
    then show ?thesis by (rule Cons.IH)
  next
    case False
    let ?r1 = "markAlertSent r (a_now a) (si_productId item)"
    obtain r2 sent2 where rest: "alertLoop a items ?r1 = (r2, sent2)"
      by (cases "alertLoop a items ?r1")
    with False Cons.prems have eq: "r' = r2" "sent = si_productId item # sent2" by auto
    from Cons.IH [OF rest]
    have "r2 pid = (if pid \<in> set sent2 then Some (a_now a + ALERT_COOLDOWN) else ?r1 pid)" .
    then show ?thesis by (auto simp: eq markAlertSent_def)
  qed
qed

lemma alertLoop_skips:
  "hasRecentAlert r (a_now a) pid \<Longrightarrow> alertLoop a items r = (r', sent) \<Longrightarrow> pid \<notin> set sent"
proof (induction items arbitrary: r r' sent)
  case Nil
  then show ?case by simp
next
  case (Cons item items)
  show ?case
  proof (cases "hasRecentAlert r (a_now a) (si_productId item) \<or> \<not> sendStockAlert a (si_productId item)")
    case True
    with Cons.prems have "alertLoop a items r = (r', sent)" by (auto split: if_splits)
    with Cons.prems(1) show ?thesis by (rule Cons.IH)
  next
    case False
    let ?r1 = "markAlertSent r (a_now a) (si_productId item)"
    obtain r2 sent2 where rest: "alertLoop a items ?r1 = (r2, sent2)"
      by (cases "alertLoop a items ?r1")
    with False Cons.prems have eq: "sent = si_productId item # sent2" by auto
    from False Cons.prems(1) have other: "si_productId item \<noteq> pid" by auto
    then have "hasRecentAlert ?r1 (a_now a) pid"
      using Cons.prems(1) by (simp add: hasRecentAlert_def markAlertSent_def)
    from Cons.IH [OF this rest] other show ?thesis by (simp add: eq)
  qed
qed

lemma alertLoop_fires_once:
  "\<not> hasRecentAlert r (a_now a) pid \<Longrightarrow> sendStockAlert a pid \<Longrightarrow>
   pid \<in> si_productId ` set items \<Longrightarrow> distinct (map si_productId items) \<Longrightarrow>
   alertLoop a items r = (r', sent) \<Longrightarrow> count_list sent pid = 1"
proof (induction items arbitrary: r r' sent)
  case Nil
  then show ?case by simp
next
  case (Cons item items)
  let ?r1 = "markAlertSent r (a_now a) (si_productId item)"
  obtain r2 sent2 where rest: "alertLoop a items ?r1 = (r2, sent2)"
    by (cases "alertLoop a items ?r1")
  show ?case
  proof (cases "si_productId item = pid")
    case True
    with Cons.prems rest have eq: "sent = pid # sent2" by auto
    have "hasRecentAlert ?r1 (a_now a) pid"
      by (simp add: True hasRecentAlert_def markAlertSent_def ALERT_COOLDOWN_def)
    from alertLoop_skips [OF this rest] have "count_list sent2 pid = 0"
      by (simp add: count_list_0_iff)
    then show ?thesis by (simp add: eq)
  next
    case False
    with Cons.prems have later: "pid \<in> si_productId ` set items"
      and dist: "distinct (map si_productId items)" by auto
    show ?thesis
    proof (cases "hasRecentAlert r (a_now a) (si_productId item) \<or> \<not> sendStockAlert a (si_productId item)")
      case True
      with Cons.prems have "alertLoop a items r = (r', sent)" by (auto split: if_splits)
      from Cons.IH [OF Cons.prems(1,2) later dist this] show ?thesis .
    next
      case sends: False
      with Cons.prems rest have eq: "sent = si_productId item # sent2" by auto
      have "\<not> hasRecentAlert ?r1 (a_now a) pid"
        using Cons.prems(1) False by (simp add: hasRecentAlert_def markAlertSent_def)
      from Cons.IH [OF this Cons.prems(2) later dist rest] False show ?thesis
        by (simp add: eq)
    qed
  qed
qed

lemma lowStock_distinct:
  assumes "distinct (map p_id (products d))"
  shows "distinct (map si_productId (getLowStockProducts th d))"
proof -
  have "map si_productId (checkAllStock th d) = map p_id (filter p_active (products d))"
    by (simp add: checkAllStock_def Let_def comp_def)
  with assms have "distinct (map si_productId (checkAllStock th d))"
    by (simp add: distinct_map_filter)
  then show ?thesis by (simp add: getLowStockProducts_def distinct_map_filter)
qed

lemma check_in_cooldown:
  assumes "r pid = Some expiry" and "a_now a < expiry" and "checkAndAlert th a d r = (rep, r')"
  shows "pid \<notin> set (alerted rep) \<and> r' pid = Some expiry"
proof (cases "getLowStockProducts th d = []")
  case True
  with assms show ?thesis by (auto simp: checkAndAlert_def)
next
  case False
  obtain r2 sent where loop: "alertLoop a (getLowStockProducts th d) r = (r2, sent)"
    by (cases "alertLoop a (getLowStockProducts th d) r")
  with False assms(3) have eq: "alerted rep = sent" "r' = r2"
    by (auto simp: checkAndAlert_def)
  have "hasRecentAlert r (a_now a) pid" using assms(1,2) by (simp add: hasRecentAlert_def)
  from alertLoop_skips [OF this loop] alertLoop_flags [OF loop, of pid] assms(1)
  show ?thesis by (simp add: eq)
qed

lemma checks_in_cooldown:
  "r pid = Some expiry \<Longrightarrow> \<forall>c \<in> set cs. a_now (fst c) < expiry \<Longrightarrow>
   runChecks th cs r = (reps, r') \<Longrightarrow>
   (\<forall>rep \<in> set reps. pid \<notin> set (alerted rep)) \<and> r' pid = Some expiry"
proof (induction cs arbitrary: r reps r')
  case Nil
  then show ?case by simp
next
  case (Cons c cs)
  obtain a d where c: "c = (a, d)" by (cases c)
  obtain rep r1 where one: "checkAndAlert th a d r = (rep, r1)"
    by (cases "checkAndAlert th a d r")
  obtain reps2 r2 where rest: "runChecks th cs r1 = (reps2, r2)"
    by (cases "runChecks th cs r1")
  from Cons.prems(3) have eq: "reps = rep # reps2" "r' = r2" by (simp_all add: c one rest)
  from Cons.prems(2) have "a_now a < expiry" by (simp add: c)
  from check_in_cooldown [OF Cons.prems(1) this one]
  have here: "pid \<notin> set (alerted rep)" and kept: "r1 pid = Some expiry" by simp_all
  from Cons.prems(2) have "\<forall>c \<in> set cs. a_now (fst c) < expiry" by simp
  from Cons.IH [OF kept this rest] here show ?case by (simp add: eq)
qed

lemma check_fires:
  assumes "checkAndAlert th a d r = (rep, r')" and "pid \<in> set (alerted rep)"
  shows "r' pid = Some (a_now a + ALERT_COOLDOWN)"
proof (cases "getLowStockProducts th d = []")
  case True
  with assms show ?thesis by (auto simp: checkAndAlert_def)
next
  case False
  obtain r2 sent where loop: "alertLoop a (getLowStockProducts th d) r = (r2, sent)"
    by (cases "alertLoop a (getLowStockProducts th d) r")
  with False assms(1) have eq: "alerted rep = sent" "r' = r2"
    by (auto simp: checkAndAlert_def)
  from alertLoop_flags [OF loop, of pid] assms(2) show ?thesis by (simp add: eq)
qed

lemma check_after_expiry:
  assumes "\<not> hasRecentAlert r (a_now a) pid" and "sendStockAlert a pid"
    and "pid \<in> si_productId ` set (getLowStockProducts th d)"
    and "distinct (map p_id (products d))"
    and "checkAndAlert th a d r = (rep, r')"
  shows "count_list (alerted rep) pid = 1 \<and> r' pid = Some (a_now a + ALERT_COOLDOWN)"
proof -
  from assms(3) have ne: "getLowStockProducts th d \<noteq> []" by auto
  obtain r2 sent where loop: "alertLoop a (getLowStockProducts th d) r = (r2, sent)"
    by (cases "alertLoop a (getLowStockProducts th d) r")
  with ne assms(5) have eq: "alerted rep = sent" "r' = r2"
    by (auto simp: checkAndAlert_def)
  from alertLoop_fires_once [OF assms(1,2,3) lowStock_distinct [OF assms(4)] loop]
  have once: "count_list (alerted rep) pid = 1" by (simp add: eq)
  then have "pid \<in> set (alerted rep)" by (metis count_list_0_iff zero_neq_one)
  from check_fires [OF assms(5) this] once show ?thesis by simp
qed

text \<open>
  The guard \<^verbatim>\<open>if (result.success)\<close> of the loop: a check in which no channel delivers
  the alert for a product counts no alert for it and leaves its flag as it was, so the
  next check tries again.
\<close>

lemma alertLoop_undelivered:
  "\<not> sendStockAlert a pid \<Longrightarrow> alertLoop a items r = (r', sent) \<Longrightarrow> pid \<notin> set sent"
proof (induction items arbitrary: r r' sent)
  case Nil
  then show ?case by simp
next
  case (Cons item items)
  show ?case
  proof (cases "hasRecentAlert r (a_now a) (si_productId item) \<or> \<not> sendStockAlert a (si_productId item)")
    case True
    with Cons.prems have "alertLoop a items r = (r', sent)" by (auto split: if_splits)
    with Cons.prems(1) show ?thesis by (rule Cons.IH)
  next
    case False
    let ?r1 = "markAlertSent r (a_now a) (si_productId item)"
    obtain r2 sent2 where rest: "alertLoop a items ?r1 = (r2, sent2)"
      by (cases "alertLoop a items ?r1")
    with False Cons.prems have eq: "sent = si_productId item # sent2" by auto
    from False Cons.prems(1) have "si_productId item \<noteq> pid" by auto
    with Cons.IH [OF Cons.prems(1) rest] show ?thesis by (simp add: eq)
  qed
qed

lemma check_undelivered:
  assumes "\<not> sendStockAlert a pid" and "checkAndAlert th a d r = (rep, r')"
  shows "pid \<notin> set (alerted rep) \<and> r' pid = r pid"
proof (cases "getLowStockProducts th d = []")
  case True
  with assms show ?thesis by (auto simp: checkAndAlert_def)
next
  case False
  obtain r2 sent where loop: "alertLoop a (getLowStockProducts th d) r = (r2, sent)"
    by (cases "alertLoop a (getLowStockProducts th d) r")
  with False assms(2) have eq: "alerted rep = sent" "r' = r2"
    by (auto simp: checkAndAlert_def)
  from alertLoop_undelivered [OF assms(1) loop] alertLoop_flags [OF loop, of pid]
  show ?thesis by (simp add: eq)
qed

text \<open>
  Claim C10, as stated, fails where no channel delivers. A first check at time 0 sends
  the alert for product 1 and sets its flag until 86400. At 86400 the flag has
  expired and the product is still low on stock, but the mail service throws: the check
  counts no alert and sets no new cooldown.
\<close>

theorem cooldown_not_set_when_undelivered:
  "checkAndAlert 10 (alerts_at 0) shop Map.empty =
     (\<lparr>lowStockCount = 1, alertsSent = 1, alerted = [1]\<rparr>, [1 \<mapsto> 86400]) \<and>
   \<not> hasRecentAlert [1 \<mapsto> 86400] 86400 1 \<and>
   map si_productId (getLowStockProducts 10 shop) = [1] \<and>
   checkAndAlert 10 (silent_at 86400) shop [1 \<mapsto> 86400] =
     (\<lparr>lowStockCount = 1, alertsSent = 0, alerted = []\<rparr>, [1 \<mapsto> 86400])"
  by (simp add: checkAndAlert_def getLowStockProducts_def checkAllStock_def ex_defs
        sendStockAlert_def channelResult_def hasRecentAlert_def markAlertSent_def
        ALERT_COOLDOWN_def alerts_at_def silent_at_def)

text \<open>
  Claim C10, amended. When a check has sent an alert for a product (a channel delivered
  it), the product's cooldown flag is set for 24 hours from that check. Whatever checks
  follow while the flag is there (any number, on any databases, with any channels),
  none of them sends an alert for the product, and the flag stays. The next check at
  or after the expiry in which the product is active and low on stock, and in which a
  channel delivers the alert, sends exactly one alert for it and sets the flag for 24
  hours from that check. A check in which no channel delivers the alert for the
  product counts no alert for it and leaves its flag as it was.
\<close>

theorem cooldown_suppression:
  assumes fired: "checkAndAlert th a0 d0 r0 = (rep0, r1)" "pid \<in> set (alerted rep0)"
    and within: "\<forall>c \<in> set cs. a_now (fst c) < a_now a0 + ALERT_COOLDOWN"
    and ran: "runChecks th cs r1 = (reps, r2)"
    and expired: "a_now a0 + ALERT_COOLDOWN \<le> a_now a1"
    and qualifying: "pid \<in> si_productId ` set (getLowStockProducts th d1)"
    and ids: "distinct (map p_id (products d1))"
    and delivered: "sendStockAlert a1 pid"
    and after: "checkAndAlert th a1 d1 r2 = (rep1, r3)"
  shows "ALERT_COOLDOWN = 24 * 3600 \<and>
         r1 pid = Some (a_now a0 + ALERT_COOLDOWN) \<and>
         (\<forall>rep \<in> set reps. pid \<notin> set (alerted rep)) \<and>
         count_list (alerted rep1) pid = 1 \<and>
         r3 pid = Some (a_now a1 + ALERT_COOLDOWN) \<and>
         (\<forall>a d r rep r'. \<not> sendStockAlert a pid \<and> checkAndAlert th a d r = (rep, r') \<longrightarrow>
            pid \<notin> set (alerted rep) \<and> r' pid = r pid)"
proof -
  have flag: "r1 pid = Some (a_now a0 + ALERT_COOLDOWN)" by (rule check_fires [OF fired])
  from checks_in_cooldown [OF flag within ran]
  have quiet: "\<forall>rep \<in> set reps. pid \<notin> set (alerted rep)"
    and kept: "r2 pid = Some (a_now a0 + ALERT_COOLDOWN)" by simp_all
  have "\<not> hasRecentAlert r2 (a_now a1) pid"
    using kept expired by (simp add: hasRecentAlert_def)
  from check_after_expiry [OF this delivered qualifying ids after]
  have once: "count_list (alerted rep1) pid = 1"
    and anew: "r3 pid = Some (a_now a1 + ALERT_COOLDOWN)" by simp_all
  have silent: "\<forall>a d r rep r'. \<not> sendStockAlert a pid \<and> checkAndAlert th a d r = (rep, r') \<longrightarrow>
                  pid \<notin> set (alerted rep) \<and> r' pid = r pid"
    using check_undelivered by blast
  have "ALERT_COOLDOWN = 24 * 3600" by (simp add: ALERT_COOLDOWN_def)
  with flag quiet once anew silent show ?thesis by blast
qed

theorem cooldown_suppression_witness:
  "checkAndAlert 10 (alerts_at 0) shop Map.empty =
     (\<lparr>lowStockCount = 1, alertsSent = 1, alerted = [1]\<rparr>, [1 \<mapsto> 86400]) \<and>
   runChecks 10 [(alerts_at 3600, shop), (alerts_at 86399, shop)] [1 \<mapsto> 86400] =
     ([\<lparr>lowStockCount = 1, alertsSent = 0, alerted = []\<rparr>,
       \<lparr>lowStockCount = 1, alertsSent = 0, alerted = []\<rparr>], [1 \<mapsto> 86400]) \<and>
   sendStockAlert (alerts_at 86400) 1 \<and>
   checkAndAlert 10 (alerts_at 86400) shop [1 \<mapsto> 86400] =
     (\<lparr>lowStockCount = 1, alertsSent = 1, alerted = [1]\<rparr>, [1 \<mapsto> 172800]) \<and>
   count_list [1::nat] 1 = 1 \<and>
   \<not> sendStockAlert (silent_at 86400) 1 \<and>
   checkAndAlert 10 (silent_at 86400) shop [1 \<mapsto> 86400] =
     (\<lparr>lowStockCount = 1, alertsSent = 0, alerted = []\<rparr>, [1 \<mapsto> 86400]) \<and>
   [1 \<mapsto> 86400] (1::nat) = Some (86400::nat)"
proof -
  let ?quiet = "\<lparr>lowStockCount = 1, alertsSent = 0, alerted = []\<rparr>"
  have low: "getLowStockProducts 10 shop =
               [\<lparr>si_productId = 1, si_productName = ''W11'', stockCount = 2, isLowStock = True\<rparr>]"
    by (simp add: getLowStockProducts_def checkAllStock_def ex_defs)
  have send: "sendStockAlert (alerts_at t) 1" for t
    by (simp add: sendStockAlert_def channelResult_def alerts_at_def)
  have nosend: "\<not> sendStockAlert (silent_at 86400) 1"
    by (simp add: sendStockAlert_def channelResult_def silent_at_def)
  have fired: "checkAndAlert 10 (alerts_at 0) shop Map.empty =
                 (\<lparr>lowStockCount = 1, alertsSent = 1, alerted = [1]\<rparr>, [1 \<mapsto> 86400])"
    by (simp add: checkAndAlert_def low sendStockAlert_def channelResult_def hasRecentAlert_def
          markAlertSent_def ALERT_COOLDOWN_def alerts_at_def)
  have quiet: "checkAndAlert 10 (alerts_at t) shop [1 \<mapsto> 86400] = (?quiet, [1 \<mapsto> 86400])"
    if "t < 86400" for t
    using that by (simp add: checkAndAlert_def low hasRecentAlert_def alerts_at_def)
  have ran: "runChecks 10 [(alerts_at 3600, shop), (alerts_at 86399, shop)] [1 \<mapsto> 86400] =
               ([?quiet, ?quiet], [1 \<mapsto> 86400])"
    using quiet [of 3600] quiet [of 86399] by simp
  have after: "checkAndAlert 10 (alerts_at 86400) shop [1 \<mapsto> 86400] =
                 (\<lparr>lowStockCount = 1, alertsSent = 1, alerted = [1]\<rparr>, [1 \<mapsto> 172800])"
    by (simp add: checkAndAlert_def low sendStockAlert_def channelResult_def hasRecentAlert_def
          markAlertSent_def ALERT_COOLDOWN_def alerts_at_def)
  have silent: "checkAndAlert 10 (silent_at 86400) shop [1 \<mapsto> 86400] = (?quiet, [1 \<mapsto> 86400])"
    by (simp add: checkAndAlert_def low sendStockAlert_def channelResult_def hasRecentAlert_def
          silent_at_def)
  have within: "\<forall>c \<in> set [(alerts_at 3600, shop), (alerts_at 86399, shop)].
                  a_now (fst c) < a_now (alerts_at 0) + ALERT_COOLDOWN"
    by (simp add: alerts_at_def ALERT_COOLDOWN_def)
  have expired: "a_now (alerts_at 0) + ALERT_COOLDOWN \<le> a_now (alerts_at 86400)"
    by (simp add: alerts_at_def ALERT_COOLDOWN_def)
  have qualifying: "1 \<in> si_productId ` set (getLowStockProducts 10 shop)"
    by (simp add: low)
  have ids: "distinct (map p_id (products shop))" by (simp add: ex_defs)
  have mem: "(1::nat) \<in> set (alerted \<lparr>lowStockCount = 1, alertsSent = 1, alerted = [1]\<rparr>)"
    by simp
  note claim = cooldown_suppression [OF fired mem within ran expired qualifying ids send after]
  from claim have once: "count_list [1::nat] 1 = 1" by simp
  from claim nosend silent
  have kept: "[1 \<mapsto> 86400] (1::nat) = Some (86400::nat)" by simp
  from fired ran send after once nosend silent kept show ?thesis by simp
qed

end
